theory Spec2Isabelle
  imports Main "HOL-Library.Word"
begin

section \<open>JavaScript strings\<close>

text \<open>
  A JavaScript string is a sequence of 16-bit code units. Literals of \<^verbatim>\<open>script.js\<close>
  are ASCII and are written \<open>js ''...''\<close>.
\<close>

type_synonym jsstring = "16 word list"

definition js :: "string \<Rightarrow> jsstring" where
  "js s = map (\<lambda>c. of_nat (of_char c)) s"

text \<open>
  \<^verbatim>\<open>String.prototype.trim\<close> removes the code units of the ECMAScript productions
  WhiteSpace (TAB, VT, FF, SP, NBSP, ZWNBSP and the Unicode category Zs) and
  LineTerminator (LF, CR, LS, PS) from both ends.
\<close>

definition isWhiteSpace :: "16 word \<Rightarrow> bool" where
  "isWhiteSpace c =
     (c \<in> set [0x9, 0xA, 0xB, 0xC, 0xD, 0x20, 0xA0, 0x1680, 0x2028, 0x2029,
               0x202F, 0x205F, 0x3000, 0xFEFF]
      \<or> (0x2000 \<le> c \<and> c \<le> 0x200A))"

definition trim :: "jsstring \<Rightarrow> jsstring" where
  "trim s = rev (dropWhile isWhiteSpace (rev (dropWhile isWhiteSpace s)))"

text \<open>The two kinds of exception that the modelled code can raise.\<close>

datatype exn = SyntaxError | URIError

section \<open>Regular expressions of \<^verbatim>\<open>validateUrl\<close>\<close>

text \<open>
  The five patterns use literal characters, grouping and alternation only, and no flag.
  \<open>match_here r s\<close> lists what is left of \<open>s\<close> after each way of matching \<open>r\<close> at its
  start; \<^verbatim>\<open>RegExp.prototype.test\<close> without the \<^verbatim>\<open>g\<close> flag looks for a match at any
  position.
\<close>

datatype regex = Lit jsstring | Cat regex regex | Alt regex regex

fun match_here :: "regex \<Rightarrow> jsstring \<Rightarrow> jsstring list" where
  "match_here (Lit w) s = (if take (length w) s = w then [drop (length w) s] else [])"
| "match_here (Cat r1 r2) s = concat (map (match_here r2) (match_here r1 s))"
| "match_here (Alt r1 r2) s = match_here r1 s @ match_here r2 s"

fun test :: "regex \<Rightarrow> jsstring \<Rightarrow> bool" where
  "test r [] = (match_here r [] \<noteq> [])"
| "test r (c # s) = (match_here r (c # s) \<noteq> [] \<or> test r s)"

text \<open>The object literal \<^verbatim>\<open>patterns\<close> of \<^verbatim>\<open>validateUrl\<close>, key by key.\<close>

definition patterns :: "(jsstring \<times> regex) list" where
  "patterns =
    [(js ''spotify'',
        Cat (Lit (js ''spotify.com/''))
            (Alt (Lit (js ''track'')) (Alt (Lit (js ''album'')) (Lit (js ''playlist''))))),
     (js ''youtube-audio'', Alt (Lit (js ''youtube.com/watch'')) (Lit (js ''youtu.be/''))),
     (js ''youtube-video'', Alt (Lit (js ''youtube.com/watch'')) (Lit (js ''youtu.be/''))),
     (js ''tiktok'', Lit (js ''tiktok.com'')),
     (js ''twitter'', Alt (Lit (js ''twitter.com'')) (Lit (js ''x.com'')))]"

section \<open>\<^verbatim>\<open>encodeURIComponent\<close>\<close>

text \<open>
  ECMAScript \<^verbatim>\<open>Encode\<close> with the unescaped set of \<^verbatim>\<open>encodeURIComponent\<close>: letters,
  digits and \<^verbatim>\<open>-_.!~*'()\<close> are copied; every other code point is written as the
  \<^verbatim>\<open>%XX\<close> escapes of its UTF-8 octets; a surrogate code unit that is not part of a
  pair raises \<^verbatim>\<open>URIError\<close>.
\<close>

definition unescaped :: "16 word \<Rightarrow> bool" where
  "unescaped c =
     ((0x41 \<le> c \<and> c \<le> 0x5A) \<or> (0x61 \<le> c \<and> c \<le> 0x7A) \<or> (0x30 \<le> c \<and> c \<le> 0x39)
      \<or> c \<in> set [0x2D, 0x5F, 0x2E, 0x21, 0x7E, 0x2A, 0x27, 0x28, 0x29])"

definition isLead :: "16 word \<Rightarrow> bool" where
  "isLead c = (0xD800 \<le> c \<and> c \<le> 0xDBFF)"

definition isTrail :: "16 word \<Rightarrow> bool" where
  "isTrail c = (0xDC00 \<le> c \<and> c \<le> 0xDFFF)"

definition codePoint :: "16 word \<Rightarrow> 16 word \<Rightarrow> nat" where
  "codePoint c d = (unat c - 0xD800) * 0x400 + (unat d - 0xDC00) + 0x10000"

definition utf8 :: "nat \<Rightarrow> nat list" where
  "utf8 cp =
     (if cp < 0x80 then [cp]
      else if cp < 0x800 then [0xC0 + cp div 64, 0x80 + cp mod 64]
      else if cp < 0x10000 then
        [0xE0 + cp div 4096, 0x80 + (cp div 64) mod 64, 0x80 + cp mod 64]
      else [0xF0 + cp div 262144, 0x80 + (cp div 4096) mod 64,
            0x80 + (cp div 64) mod 64, 0x80 + cp mod 64])"

definition hexDigit :: "nat \<Rightarrow> 16 word" where
  "hexDigit n = (if n < 10 then of_nat (0x30 + n) else of_nat (0x41 + (n - 10)))"

definition percent :: "nat \<Rightarrow> jsstring" where
  "percent octet = [0x25, hexDigit (octet div 16), hexDigit (octet mod 16)]"

definition escape :: "nat \<Rightarrow> jsstring" where
  "escape cp = concat (map percent (utf8 cp))"

definition prepend :: "jsstring \<Rightarrow> exn + jsstring \<Rightarrow> exn + jsstring" where
  "prepend p r = (case r of Inl e \<Rightarrow> Inl e | Inr t \<Rightarrow> Inr (p @ t))"

fun encodeURIComponent :: "jsstring \<Rightarrow> exn + jsstring" where
  "encodeURIComponent [] = Inr []"
| "encodeURIComponent (c # s) =
     (if unescaped c then prepend [c] (encodeURIComponent s)
      else if isLead c then
        (case s of
           [] \<Rightarrow> Inl URIError
         | d # s' \<Rightarrow>
             if isTrail d then prepend (escape (codePoint c d)) (encodeURIComponent s')
             else Inl URIError)
      else if isTrail c then Inl URIError
      else prepend (escape (unat c)) (encodeURIComponent s))"

text \<open>A string is well formed when every surrogate code unit is part of a pair.\<close>

fun wellFormed :: "jsstring \<Rightarrow> bool" where
  "wellFormed [] = True"
| "wellFormed (c # s) =
     (if isLead c then (case s of [] \<Rightarrow> False | d # s' \<Rightarrow> isTrail d \<and> wellFormed s')
      else \<not> isTrail c \<and> wellFormed s)"

section \<open>\<^verbatim>\<open>JSON.parse\<close>\<close>

text \<open>
  The history is kept in \<^verbatim>\<open>localStorage\<close> as JSON text. \<^verbatim>\<open>JSON.parse\<close> accepts the
  grammar of ECMA-404: the four whitespace characters, the literals, numbers, strings with
  their escapes, arrays and objects. A number is kept as its lexeme; the history code
  never computes with one.
\<close>

datatype json = JNull | JBool bool | JNum jsstring | JStr jsstring
  | JArr "json list" | JObj "(jsstring \<times> json) list"

definition isJsonWs :: "16 word \<Rightarrow> bool" where
  "isJsonWs c = (c \<in> set [0x20, 0x9, 0xA, 0xD])"

definition skipWs :: "jsstring \<Rightarrow> jsstring" where
  "skipWs s = dropWhile isJsonWs s"

definition isDigit :: "16 word \<Rightarrow> bool" where
  "isDigit c = (0x30 \<le> c \<and> c \<le> 0x39)"

definition hexValue :: "16 word \<Rightarrow> nat option" where
  "hexValue c =
     (if 0x30 \<le> c \<and> c \<le> 0x39 then Some (unat c - 0x30)
      else if 0x41 \<le> c \<and> c \<le> 0x46 then Some (unat c - 0x41 + 10)
      else if 0x61 \<le> c \<and> c \<le> 0x66 then Some (unat c - 0x61 + 10)
      else None)"

definition simpleEscape :: "16 word \<Rightarrow> 16 word option" where
  "simpleEscape e =
     map_of [(0x22, 0x22), (0x5C, 0x5C), (0x2F, 0x2F), (0x62, 0x8), (0x66, 0xC),
             (0x6E, 0xA), (0x72, 0xD), (0x74, 0x9)] e"

text \<open>
  \<open>lexString\<close> reads a string body after its opening quote and returns the decoded code
  units and the rest of the input; \<open>None\<close> is a syntax error.
\<close>

definition consChar :: "16 word \<Rightarrow> (jsstring \<times> jsstring) option \<Rightarrow> (jsstring \<times> jsstring) option" where
  "consChar c r = (case r of None \<Rightarrow> None | Some (str, t) \<Rightarrow> Some (c # str, t))"

fun lexString :: "jsstring \<Rightarrow> (jsstring \<times> jsstring) option" where
  "lexString [] = None"
| "lexString (c # s) =
     (if c = 0x22 then Some ([], s)
      else if c = 0x5C then
        (case s of
           [] \<Rightarrow> None
         | e # s' \<Rightarrow>
             if e = 0x75 then
               (case s' of
                  h1 # h2 # h3 # h4 # s'' \<Rightarrow>
                    (case (hexValue h1, hexValue h2, hexValue h3, hexValue h4) of
                       (Some a, Some b, Some c', Some d) \<Rightarrow>
                         consChar (of_nat (((a * 16 + b) * 16 + c') * 16 + d)) (lexString s'')
                     | _ \<Rightarrow> None)
                | _ \<Rightarrow> None)
             else
               (case simpleEscape e of
                  None \<Rightarrow> None
                | Some x \<Rightarrow> consChar x (lexString s')))
      else if c < 0x20 then None
      else consChar c (lexString s))"


text \<open>
  A number is \<^verbatim>\<open>-?(0|[1-9][0-9]*)(\.[0-9]+)?([eE][+-]?[0-9]+)?\<close>.
\<close>

definition lexDigits :: "jsstring \<Rightarrow> (jsstring \<times> jsstring) option" where
  "lexDigits s = (if takeWhile isDigit s = [] then None else Some (takeWhile isDigit s, dropWhile isDigit s))"

definition lexInt :: "jsstring \<Rightarrow> (jsstring \<times> jsstring) option" where
  "lexInt s =
     (case s of
        [] \<Rightarrow> None
      | d # t \<Rightarrow>
          if d = 0x30 then Some ([d], t)
          else if isDigit d then Some (d # takeWhile isDigit t, dropWhile isDigit t)
          else None)"

definition lexFrac :: "jsstring \<Rightarrow> (jsstring \<times> jsstring) option" where
  "lexFrac s =
     (case s of
        [] \<Rightarrow> Some ([], s)
      | d # t \<Rightarrow>
          if d = 0x2E then
            (case lexDigits t of None \<Rightarrow> None | Some (ds, r) \<Rightarrow> Some (d # ds, r))
          else Some ([], s))"

definition lexExp :: "jsstring \<Rightarrow> (jsstring \<times> jsstring) option" where
  "lexExp s =
     (case s of
        [] \<Rightarrow> Some ([], s)
      | e # t \<Rightarrow>
          if e = 0x65 \<or> e = 0x45 then
            (case t of
               [] \<Rightarrow> None
             | g # u \<Rightarrow>
                 if g = 0x2B \<or> g = 0x2D then
                   (case lexDigits u of None \<Rightarrow> None | Some (ds, r) \<Rightarrow> Some (e # g # ds, r))
                 else
                   (case lexDigits t of None \<Rightarrow> None | Some (ds, r) \<Rightarrow> Some (e # ds, r)))
          else Some ([], s))"

definition lexNumber :: "jsstring \<Rightarrow> (jsstring \<times> jsstring) option" where
  "lexNumber s =
     (let (sign, s1) = (case s of [] \<Rightarrow> ([], s) | c # t \<Rightarrow> if c = 0x2D then ([c], t) else ([], s)) in
      case lexInt s1 of
        None \<Rightarrow> None
      | Some (i, s2) \<Rightarrow>
          (case lexFrac s2 of
             None \<Rightarrow> None
           | Some (f, s3) \<Rightarrow>
               (case lexExp s3 of
                  None \<Rightarrow> None
                | Some (x, s4) \<Rightarrow> Some (sign @ i @ f @ x, s4))))"


text \<open>
  Values nest, so the parser recurses on a fuel argument. \<open>Failed\<close> is a syntax error,
  \<open>NoFuel\<close> an exhausted budget. \<open>parseValue\<close> expects its input with leading
  whitespace removed; \<open>parseElements\<close> reads the elements of an array up to and including
  the closing bracket, \<open>parseMembers\<close> the members of an object up to and including the
  closing brace.
\<close>

datatype 'a parsed = Parsed 'a jsstring | Failed | NoFuel

fun parseValue :: "nat \<Rightarrow> jsstring \<Rightarrow> json parsed"
and parseElements :: "nat \<Rightarrow> jsstring \<Rightarrow> json list parsed"
and parseMembers :: "nat \<Rightarrow> jsstring \<Rightarrow> (jsstring \<times> json) list parsed" where
  "parseValue 0 s = NoFuel"
| "parseValue (Suc n) s =
     (case s of
        [] \<Rightarrow> Failed
      | c # r \<Rightarrow>
          if c = 0x5B then
            (case skipWs r of
               [] \<Rightarrow> Failed
             | d # t \<Rightarrow>
                 if d = 0x5D then Parsed (JArr []) t
                 else (case parseElements n (d # t) of
                         Parsed vs u \<Rightarrow> Parsed (JArr vs) u | Failed \<Rightarrow> Failed | NoFuel \<Rightarrow> NoFuel))
          else if c = 0x7B then
            (case skipWs r of
               [] \<Rightarrow> Failed
             | d # t \<Rightarrow>
                 if d = 0x7D then Parsed (JObj []) t
                 else (case parseMembers n (d # t) of
                         Parsed ms u \<Rightarrow> Parsed (JObj ms) u | Failed \<Rightarrow> Failed | NoFuel \<Rightarrow> NoFuel))
          else if c = 0x22 then
            (case lexString r of None \<Rightarrow> Failed | Some (str, t) \<Rightarrow> Parsed (JStr str) t)
          else if take 4 s = js ''true'' then Parsed (JBool True) (drop 4 s)
          else if take 5 s = js ''false'' then Parsed (JBool False) (drop 5 s)
          else if take 4 s = js ''null'' then Parsed JNull (drop 4 s)
          else (case lexNumber s of None \<Rightarrow> Failed | Some (num, t) \<Rightarrow> Parsed (JNum num) t))"
| "parseElements 0 s = NoFuel"
| "parseElements (Suc n) s =
     (case parseValue n s of
        Parsed v t \<Rightarrow>
          (case skipWs t of
             [] \<Rightarrow> Failed
           | d # u \<Rightarrow>
               if d = 0x2C then
                 (case parseElements n (skipWs u) of
                    Parsed vs w \<Rightarrow> Parsed (v # vs) w | Failed \<Rightarrow> Failed | NoFuel \<Rightarrow> NoFuel)
               else if d = 0x5D then Parsed [v] u
               else Failed)
      | Failed \<Rightarrow> Failed
      | NoFuel \<Rightarrow> NoFuel)"
| "parseMembers 0 s = NoFuel"
| "parseMembers (Suc n) s =
     (case s of
        [] \<Rightarrow> Failed
      | q # r \<Rightarrow>
          if q = 0x22 then
            (case lexString r of
               None \<Rightarrow> Failed
             | Some (k, t) \<Rightarrow>
                 (case skipWs t of
                    [] \<Rightarrow> Failed
                  | c # u \<Rightarrow>
                      if c = 0x3A then
                        (case parseValue n (skipWs u) of
                           Parsed v w \<Rightarrow>
                             (case skipWs w of
                                [] \<Rightarrow> Failed
                              | d # x \<Rightarrow>
                                  if d = 0x2C then
                                    (case parseMembers n (skipWs x) of
                                       Parsed ms y \<Rightarrow> Parsed ((k, v) # ms) y
                                     | Failed \<Rightarrow> Failed
                                     | NoFuel \<Rightarrow> NoFuel)
                                  else if d = 0x7D then Parsed [(k, v)] x
                                  else Failed)
                         | Failed \<Rightarrow> Failed
                         | NoFuel \<Rightarrow> NoFuel)
                      else Failed))
          else Failed)"

text \<open>
  \<^verbatim>\<open>JSON.parse\<close> raises \<^verbatim>\<open>SyntaxError\<close> on text that is not one JSON value. The fuel
  given here is never used up (lemma \<open>JSON_parse_fuel\<close> below), so the last branch is
  dead.
\<close>

definition JSON_parse :: "jsstring \<Rightarrow> exn + json" where
  "JSON_parse s =
     (case parseValue (2 * length s + 1) (skipWs s) of
        Parsed v t \<Rightarrow> if skipWs t = [] then Inr v else Inl SyntaxError
      | Failed \<Rightarrow> Inl SyntaxError
      | NoFuel \<Rightarrow> Inl SyntaxError)"

section \<open>History records and their serialisation\<close>

text \<open>
  The object literal \<^verbatim>\<open>downloadData\<close> of \<^verbatim>\<open>pollDownloadStatus\<close>, with the types of the
  backend's interface: strings, and a list of file names. \<open>outputPath\<close> is \<open>None\<close> when
  \<^verbatim>\<open>status.output_path\<close> is undefined.
\<close>

record download =
  title :: jsstring
  platform :: jsstring
  url :: jsstring
  outputPath :: "jsstring option"
  files :: "jsstring list"
  timestamp :: jsstring

text \<open>
  The JSON value of a record, with its properties in the order of the object literal;
  \<^verbatim>\<open>JSON.stringify\<close> leaves out a property whose value is undefined.
\<close>

definition to_json :: "download \<Rightarrow> json" where
  "to_json d =
     JObj ([(js ''title'', JStr (title d)),
            (js ''platform'', JStr (platform d)),
            (js ''url'', JStr (url d))]
           @ (case outputPath d of None \<Rightarrow> [] | Some p \<Rightarrow> [(js ''outputPath'', JStr p)])
           @ [(js ''files'', JArr (map JStr (files d))),
              (js ''timestamp'', JStr (timestamp d))])"

text \<open>
  The records of this model are typed, the values of the program are not. \<open>as_history\<close>
  reads a parsed value back as a list of records when it has exactly the shape that
  \<open>to_json\<close> writes, and is \<open>None\<close> on every other value.
\<close>

definition as_string :: "json \<Rightarrow> jsstring option" where
  "as_string v = (case v of JStr s \<Rightarrow> Some s | _ \<Rightarrow> None)"

definition as_strings :: "json \<Rightarrow> jsstring list option" where
  "as_strings v = (case v of JArr vs \<Rightarrow> those (map as_string vs) | _ \<Rightarrow> None)"

definition as_download :: "json \<Rightarrow> download option" where
  "as_download v =
     (case v of
        JObj [(k1, JStr t), (k2, JStr p), (k3, JStr u), (k4, fs), (k5, JStr ts)] \<Rightarrow>
          (case as_strings fs of
             Some names \<Rightarrow>
               if [k1, k2, k3, k4, k5]
                  = [js ''title'', js ''platform'', js ''url'', js ''files'', js ''timestamp'']
               then Some \<lparr>title = t, platform = p, url = u, outputPath = None,
                          files = names, timestamp = ts\<rparr>
               else None
           | None \<Rightarrow> None)
      | JObj [(k1, JStr t), (k2, JStr p), (k3, JStr u), (k4, JStr out), (k5, fs), (k6, JStr ts)] \<Rightarrow>
          (case as_strings fs of
             Some names \<Rightarrow>
               if [k1, k2, k3, k4, k5, k6]
                  = [js ''title'', js ''platform'', js ''url'', js ''outputPath'', js ''files'',
                     js ''timestamp'']
               then Some \<lparr>title = t, platform = p, url = u, outputPath = Some out,
                          files = names, timestamp = ts\<rparr>
               else None
           | None \<Rightarrow> None)
      | _ \<Rightarrow> None)"

definition as_history :: "json \<Rightarrow> download list option" where
  "as_history v = (case v of JArr vs \<Rightarrow> those (map as_download vs) | _ \<Rightarrow> None)"

text \<open>
  \<^verbatim>\<open>JSON.stringify\<close>: \<^verbatim>\<open>QuoteJSONString\<close> escapes the quote, the backslash, the control
  characters and unpaired surrogates. Numbers do not occur in what this program
  serialises; one would be printed as its lexeme.
\<close>

definition hexLower :: "nat \<Rightarrow> 16 word" where
  "hexLower n = (if n < 10 then of_nat (0x30 + n) else of_nat (0x61 + (n - 10)))"

definition unicodeEscape :: "16 word \<Rightarrow> jsstring" where
  "unicodeEscape c =
     [0x5C, 0x75, hexLower (unat c div 4096), hexLower (unat c div 256 mod 16),
      hexLower (unat c div 16 mod 16), hexLower (unat c mod 16)]"

definition shortEscape :: "16 word \<Rightarrow> 16 word option" where
  "shortEscape c =
     map_of [(0x8, 0x62), (0x9, 0x74), (0xA, 0x6E), (0xC, 0x66), (0xD, 0x72),
             (0x22, 0x22), (0x5C, 0x5C)] c"

fun quoteChars :: "jsstring \<Rightarrow> jsstring" where
  "quoteChars [] = []"
| "quoteChars (c # s) =
     (case shortEscape c of
        Some e \<Rightarrow> [0x5C, e] @ quoteChars s
      | None \<Rightarrow>
          if c < 0x20 then unicodeEscape c @ quoteChars s
          else if isLead c then
            (case s of
               [] \<Rightarrow> unicodeEscape c
             | d # s' \<Rightarrow>
                 if isTrail d then c # d # quoteChars s'
                 else unicodeEscape c @ quoteChars s)
          else if isTrail c then unicodeEscape c @ quoteChars s
          else c # quoteChars s)"

definition quoteJSONString :: "jsstring \<Rightarrow> jsstring" where
  "quoteJSONString s = [0x22] @ quoteChars s @ [0x22]"

fun JSON_stringify :: "json \<Rightarrow> jsstring"
and stringifyElements :: "json list \<Rightarrow> jsstring"
and stringifyMembers :: "(jsstring \<times> json) list \<Rightarrow> jsstring" where
  "JSON_stringify JNull = js ''null''"
| "JSON_stringify (JBool b) = (if b then js ''true'' else js ''false'')"
| "JSON_stringify (JNum n) = n"
| "JSON_stringify (JStr s) = quoteJSONString s"
| "JSON_stringify (JArr vs) = [0x5B] @ stringifyElements vs @ [0x5D]"
| "JSON_stringify (JObj ms) = [0x7B] @ stringifyMembers ms @ [0x7D]"
| "stringifyElements [] = []"
| "stringifyElements [v] = JSON_stringify v"
| "stringifyElements (v # w # vs) = JSON_stringify v @ [0x2C] @ stringifyElements (w # vs)"
| "stringifyMembers [] = []"
| "stringifyMembers [(k, v)] = quoteJSONString k @ [0x3A] @ JSON_stringify v"
| "stringifyMembers ((k, v) # m # ms) =
     quoteJSONString k @ [0x3A] @ JSON_stringify v @ [0x2C] @ stringifyMembers (m # ms)"

section \<open>The page\<close>

text \<open>
  One \<^verbatim>\<open>MediaDownloader\<close> lives on the page. Its state is the three fields of the object,
  the item \<^verbatim>\<open>downloads\<close> of \<^verbatim>\<open>localStorage\<close>, and what the code reads and writes in the
  document: the value of \<^verbatim>\<open>#urlInput\<close>, the \<^verbatim>\<open>disabled\<close> flag and the text of
  \<^verbatim>\<open>#downloadBtn\<close>, the lines of \<^verbatim>\<open>#statusLog\<close> and the links of \<^verbatim>\<open>#downloadsList\<close>.
  Two more fields record the environment: the requests sent with \<^verbatim>\<open>fetch\<close>, and the calls
  of \<^verbatim>\<open>startDownload\<close> that are suspended at an \<^verbatim>\<open>await\<close>.
\<close>

datatype severity = Info | Success | Error

text \<open>
  A line of the status log is a message template of \<^verbatim>\<open>script.js\<close> with its arguments and
  the \<^verbatim>\<open>type\<close> passed to \<^verbatim>\<open>logStatus\<close>; the clock prefix and the markup are left to the
  page. A \<open>reason\<close> is the \<^verbatim>\<open>message\<close> of a caught error: the text of a rejected request,
  or that of an exception raised by the modelled code.
\<close>

datatype reason = Message jsstring | Raised exn

datatype message =
    Initialized
  | EnterUrl
  | InvalidUrl
  | ErrorMsg reason
  | Completed
  | FilesReady
  | StatusError "jsstring option"
  | Progress jsstring "jsstring option"
  | CheckFailed reason

text \<open>
  \<open>PostDownload url platform\<close> is \<^verbatim>\<open>POST /download\<close> with that body, \<open>GetStatus id\<close> is
  \<^verbatim>\<open>GET /status/id\<close>. A task is a call of \<^verbatim>\<open>startDownload\<close> waiting for the reply to its
  \<^verbatim>\<open>POST\<close> (inside \<^verbatim>\<open>simulateDownload\<close>), for the reply to a status request, or for the
  one-second delay (both inside the loop of \<^verbatim>\<open>pollDownloadStatus\<close>), together with the
  local variables \<^verbatim>\<open>downloadId\<close> and \<^verbatim>\<open>url\<close>.
\<close>

datatype request = PostDownload jsstring jsstring | GetStatus "jsstring option"

datatype task =
    AwaitDownload jsstring
  | AwaitStatus "jsstring option" jsstring
  | AwaitDelay "jsstring option" jsstring

record link =
  href :: jsstring
  label :: jsstring

record state =
  currentPlatform :: jsstring
  downloads :: "download list"
  apiUrl :: jsstring
  localStorage :: "jsstring option"
  urlInput :: jsstring
  btnDisabled :: bool
  btnText :: jsstring
  statusLog :: "(message \<times> severity) list"
  downloadsList :: "link list list"
  requests :: "request list"
  tasks :: "task list"

definition logStatus :: "message \<Rightarrow> severity \<Rightarrow> state \<Rightarrow> state" where
  "logStatus m ty st = st\<lparr>statusLog := statusLog st @ [(m, ty)]\<rparr>"

definition selectPlatform :: "jsstring \<Rightarrow> state \<Rightarrow> state" where
  "selectPlatform p st = st\<lparr>currentPlatform := p\<rparr>"

text \<open>
  \<^verbatim>\<open>patterns[this.currentPlatform]?.test(url) || false\<close>: a platform without an entry is
  rejected.
\<close>

definition validateUrl :: "state \<Rightarrow> jsstring \<Rightarrow> bool" where
  "validateUrl st u =
     (case map_of patterns (currentPlatform st) of None \<Rightarrow> False | Some r \<Rightarrow> test r u)"

subsection \<open>Rendering the history\<close>

text \<open>
  \<^verbatim>\<open>renderDownloadLinks\<close> builds one anchor per file; \<open>fileLink\<close> is its \<^verbatim>\<open>href\<close> template
  and its text. \<^verbatim>\<open>Array.prototype.map\<close> stops at the first exception, as \<open>sequence\<close> does.
  Of \<^verbatim>\<open>updateDownloadsList\<close> the model keeps the links and whether it raises; when it
  raises, the list in the document is left as it was.
\<close>

fun sequence :: "(exn + 'a) list \<Rightarrow> exn + 'a list" where
  "sequence [] = Inr []"
| "sequence (x # xs) =
     (case x of
        Inl e \<Rightarrow> Inl e
      | Inr v \<Rightarrow> (case sequence xs of Inl e \<Rightarrow> Inl e | Inr vs \<Rightarrow> Inr (v # vs)))"

definition fileLink :: "state \<Rightarrow> download \<Rightarrow> jsstring \<Rightarrow> exn + link" where
  "fileLink st d name =
     (case encodeURIComponent name of
        Inl e \<Rightarrow> Inl e
      | Inr enc \<Rightarrow>
          Inr \<lparr>href = apiUrl st @ js ''/download-file/'' @ platform d @ js ''/'' @ enc,
               label = name\<rparr>)"

definition renderDownloadLinks :: "state \<Rightarrow> download \<Rightarrow> exn + link list" where
  "renderDownloadLinks st d =
     (if files d = [] then Inr [] else sequence (map (fileLink st d) (files d)))"

definition updateDownloadsList :: "state \<Rightarrow> exn + state" where
  "updateDownloadsList st =
     (if downloads st = [] then Inr (st\<lparr>downloadsList := []\<rparr>)
      else (case sequence (map (renderDownloadLinks st) (downloads st)) of
              Inl e \<Rightarrow> Inl e
            | Inr ls \<Rightarrow> Inr (st\<lparr>downloadsList := ls\<rparr>)))"

text \<open>A history renders without an exception when all its file names are well formed.\<close>

definition renderable :: "download list \<Rightarrow> bool" where
  "renderable ds = list_all (\<lambda>d. list_all wellFormed (files d)) ds"

subsection \<open>The history store\<close>

text \<open>
  \<^verbatim>\<open>addDownload\<close>: \<^verbatim>\<open>unshift\<close>, cut to ten, write the whole list to \<^verbatim>\<open>localStorage\<close>, render.
  The result is the new state and the exception of the rendering, if it raised one: by
  then the list and the stored text are already updated.
\<close>

definition addDownload :: "download \<Rightarrow> state \<Rightarrow> state \<times> exn option" where
  "addDownload data st =
     (let unshifted = data # downloads st;
          kept = (if length unshifted > 10 then take 10 unshifted else unshifted);
          st' = st\<lparr>downloads := kept,
                    localStorage := Some (JSON_stringify (JArr (map to_json kept)))\<rparr>
      in case updateDownloadsList st' of
           Inl e \<Rightarrow> (st', Some e)
         | Inr st'' \<Rightarrow> (st'', None))"

text \<open>Committing a sequence of records, the first of the list first.\<close>

definition commits :: "download list \<Rightarrow> state \<Rightarrow> state" where
  "commits rs st = fold (\<lambda>d s. fst (addDownload d s)) rs st"

subsection \<open>Downloads\<close>

text \<open>
  The replies of the backend, with the fields the code reads. \<open>data\<close> is the body of the
  reply to \<^verbatim>\<open>POST /download\<close> together with \<^verbatim>\<open>response.ok\<close>; \<open>status\<close> is the body of the
  reply to \<^verbatim>\<open>GET /status/id\<close>. A field is \<open>None\<close> when the body does not have it. A request
  is \<open>Rejected\<close> when \<^verbatim>\<open>fetch\<close> or \<^verbatim>\<open>response.json()\<close> rejects, with the message of the error.
\<close>

record data =
  response_ok :: bool
  data_download_id :: "jsstring option"
  data_error :: "jsstring option"

record status =
  status_status :: "jsstring option"
  status_title :: "jsstring option"
  status_output_path :: "jsstring option"
  status_files :: "jsstring list option"
  status_error :: "jsstring option"

datatype 'a fetched = Rejected jsstring | Resolved 'a

text \<open>
  When the call of \<^verbatim>\<open>startDownload\<close> number \<open>i\<close> comes to its end, its \<^verbatim>\<open>finally\<close> block
  enables the button again. \<^verbatim>\<open>simulateDownload\<close> catches every exception itself, so the
  \<^verbatim>\<open>catch\<close> block of \<^verbatim>\<open>startDownload\<close> is never entered.
\<close>

definition finish :: "nat \<Rightarrow> state \<Rightarrow> state" where
  "finish i st =
     st\<lparr>tasks := take i (tasks st) @ drop (Suc i) (tasks st),
        btnDisabled := False, btnText := js ''Download''\<rparr>"

text \<open>\<^verbatim>\<open>simulateDownload\<close> up to its first \<^verbatim>\<open>await\<close>: the request is sent.\<close>

definition simulateDownload :: "jsstring \<Rightarrow> state \<Rightarrow> state" where
  "simulateDownload u st =
     st\<lparr>requests := requests st @ [PostDownload u (currentPlatform st)],
        tasks := tasks st @ [AwaitDownload u]\<rparr>"

definition startDownload :: "state \<Rightarrow> state" where
  "startDownload st =
     (let u = trim (urlInput st) in
      if u = [] then logStatus EnterUrl Error st
      else if \<not> validateUrl st u then logStatus InvalidUrl Error st
      else simulateDownload u (st\<lparr>btnDisabled := True, btnText := js ''Downloading...''\<rparr>))"

text \<open>The head of the loop of \<^verbatim>\<open>pollDownloadStatus\<close>: the status request is sent.\<close>

definition pollDownloadStatus :: "nat \<Rightarrow> jsstring option \<Rightarrow> jsstring \<Rightarrow> state \<Rightarrow> state" where
  "pollDownloadStatus i downloadId u st =
     st\<lparr>requests := requests st @ [GetStatus downloadId],
        tasks := (tasks st)[i := AwaitStatus downloadId u]\<rparr>"

text \<open>
  \<^verbatim>\<open>simulateDownload\<close> after the reply: \<^verbatim>\<open>new Error(data.error)\<close> has the empty message
  when \<^verbatim>\<open>data.error\<close> is undefined.
\<close>

definition onDownloadReply :: "nat \<Rightarrow> jsstring \<Rightarrow> data fetched \<Rightarrow> state \<Rightarrow> state" where
  "onDownloadReply i u reply st =
     (case reply of
        Rejected m \<Rightarrow> finish i (logStatus (ErrorMsg (Message m)) Error st)
      | Resolved d \<Rightarrow>
          if \<not> response_ok d then
            finish i (logStatus
              (ErrorMsg (Message (case data_error d of None \<Rightarrow> [] | Some e \<Rightarrow> e))) Error st)
          else pollDownloadStatus i (data_download_id d) u st)"

text \<open>\<^verbatim>\<open>v || d\<close> on strings: undefined and the empty string are falsy.\<close>

definition orElse :: "jsstring option \<Rightarrow> jsstring \<Rightarrow> jsstring" where
  "orElse v d = (case v of None \<Rightarrow> d | Some s \<Rightarrow> if s = [] then d else s)"

text \<open>
  The object literal \<^verbatim>\<open>downloadData\<close>; \<open>now\<close> is \<^verbatim>\<open>new Date().toISOString()\<close>. An array is
  truthy even when empty, so \<^verbatim>\<open>status.files || []\<close> replaces an undefined value only.
\<close>

definition downloadData :: "state \<Rightarrow> jsstring \<Rightarrow> status \<Rightarrow> jsstring \<Rightarrow> download" where
  "downloadData st u s now =
     \<lparr>title = orElse (status_title s) (js ''Downloaded Media''),
      platform = currentPlatform st,
      url = u,
      outputPath = status_output_path s,
      files = (case status_files s of None \<Rightarrow> [] | Some fs \<Rightarrow> fs),
      timestamp = now\<rparr>"

text \<open>
  The body of the loop after the reply. An exception raised inside \<^verbatim>\<open>addDownload\<close> is
  caught by the \<^verbatim>\<open>catch\<close> of the loop, before the input field is cleared.
\<close>

definition onStatusReply ::
  "nat \<Rightarrow> jsstring option \<Rightarrow> jsstring \<Rightarrow> status fetched \<Rightarrow> jsstring \<Rightarrow> state \<Rightarrow> state" where
  "onStatusReply i downloadId u reply now st =
     (case reply of
        Rejected m \<Rightarrow> finish i (logStatus (CheckFailed (Message m)) Error st)
      | Resolved s \<Rightarrow>
          if status_status s = Some (js ''completed'') then
            (case addDownload (downloadData st u s now)
                    (logStatus FilesReady Success (logStatus Completed Success st)) of
               (st', Some e) \<Rightarrow> finish i (logStatus (CheckFailed (Raised e)) Error st')
             | (st', None) \<Rightarrow> finish i (st'\<lparr>urlInput := []\<rparr>))
          else if status_status s = Some (js ''error'') then
            finish i (logStatus (StatusError (status_error s)) Error st)
          else
            (logStatus (Progress (currentPlatform st) (status_status s)) Info st)
              \<lparr>tasks := (tasks st)[i := AwaitDelay downloadId u]\<rparr>)"

subsection \<open>Events\<close>

text \<open>
  The page is single-threaded: between two \<^verbatim>\<open>await\<close>s a handler runs to its end, and the
  handlers interleave at the \<^verbatim>\<open>await\<close>s. An event is what the environment does next: the
  user edits the input field, clicks a platform button, clicks the download button or
  presses a key in the input field (the three listeners of \<^verbatim>\<open>bindEvents\<close>), or a pending
  request of task \<open>i\<close> is answered, or its delay is over. A disabled button receives no
  click. \<open>StatusReply\<close> carries the clock reading taken if the job is completed.
\<close>

datatype event =
    Type jsstring
  | ClickPlatform jsstring
  | ClickDownload
  | KeyPress jsstring
  | DownloadReply nat "data fetched"
  | StatusReply nat "status fetched" jsstring
  | DelayElapsed nat

definition task_at :: "state \<Rightarrow> nat \<Rightarrow> task option" where
  "task_at st i = (if i < length (tasks st) then Some (tasks st ! i) else None)"

fun step :: "state \<Rightarrow> event \<Rightarrow> state" where
  "step st (Type t) = st\<lparr>urlInput := t\<rparr>"
| "step st (ClickPlatform p) = selectPlatform p st"
| "step st ClickDownload = (if btnDisabled st then st else startDownload st)"
| "step st (KeyPress k) = (if k = js ''Enter'' then startDownload st else st)"
| "step st (DownloadReply i reply) =
     (case task_at st i of
        Some (AwaitDownload u) \<Rightarrow> onDownloadReply i u reply st
      | _ \<Rightarrow> st)"
| "step st (StatusReply i reply now) =
     (case task_at st i of
        Some (AwaitStatus downloadId u) \<Rightarrow> onStatusReply i downloadId u reply now st
      | _ \<Rightarrow> st)"
| "step st (DelayElapsed i) =
     (case task_at st i of
        Some (AwaitDelay downloadId u) \<Rightarrow> pollDownloadStatus i downloadId u st
      | _ \<Rightarrow> st)"

definition run :: "state \<Rightarrow> event list \<Rightarrow> state" where
  "run st evs = foldl step st evs"

text \<open>A task inside the loop of \<^verbatim>\<open>pollDownloadStatus\<close>.\<close>

definition polling :: "task \<Rightarrow> bool" where
  "polling t = (case t of AwaitDownload u \<Rightarrow> False | _ \<Rightarrow> True)"

text \<open>The lines logged between two states.\<close>

definition emitted :: "state \<Rightarrow> state \<Rightarrow> (message \<times> severity) list" where
  "emitted before after = drop (length (statusLog before)) (statusLog after)"

subsection \<open>Start-up\<close>

text \<open>
  \<open>newPage\<close> is the object as the constructor sets its fields, on the page as loaded:
  empty input field, enabled button, empty log. \<^verbatim>\<open>init\<close> binds the listeners (the events
  of \<open>step\<close>), renders the history and logs one line.

  The constructor reads the stored text \<open>item\<close> (\<open>None\<close> when \<^verbatim>\<open>getItem\<close> returns null)
  and parses it outside any \<^verbatim>\<open>try\<close>. It ends in one of three ways: the page has
  started; an exception has left the constructor; or the stored text is JSON but not a
  history written by \<open>addDownload\<close>, where this typed model says nothing about the program.
\<close>

definition init :: "state \<Rightarrow> exn + state" where
  "init st =
     (case updateDownloadsList st of
        Inl e \<Rightarrow> Inl e
      | Inr st' \<Rightarrow> Inr (logStatus Initialized Info st'))"

definition newPage :: "download list \<Rightarrow> jsstring option \<Rightarrow> state" where
  "newPage ds item =
     \<lparr>currentPlatform = js ''spotify'', downloads = ds,
      apiUrl = js ''http://localhost:5000'', localStorage = item,
      urlInput = [], btnDisabled = False, btnText = js ''Download'',
      statusLog = [], downloadsList = [], requests = [], tasks = []\<rparr>"

datatype startup = Started state | Threw exn | NotAHistory

definition constructor :: "jsstring option \<Rightarrow> startup" where
  "constructor item =
     (case JSON_parse (case item of None \<Rightarrow> js ''[]'' | Some t \<Rightarrow> if t = [] then js ''[]'' else t) of
        Inl e \<Rightarrow> Threw e
      | Inr v \<Rightarrow>
          (case as_history v of
             None \<Rightarrow> NotAHistory
           | Some ds \<Rightarrow>
               (case init (newPage ds item) of Inl e \<Rightarrow> Threw e | Inr st \<Rightarrow> Started st)))"

section \<open>Concrete pages and runs\<close>

text \<open>The page right after start-up with nothing stored.\<close>

definition startPage :: state where
  "startPage = logStatus Initialized Info (newPage [] None)"

text \<open>
  The run of the specification's end-to-end test: the user has typed a Spotify track URL
  and clicks the button; the backend accepts the job, reports \<^verbatim>\<open>processing\<close> twice and then
  \<^verbatim>\<open>completed\<close> with a title and one file. \<open>song\<close> is the record expected at the head of
  the history.
\<close>

definition trackUrl :: jsstring where
  "trackUrl = js ''https://open.spotify.com/track/abc''"

definition typed :: state where
  "typed = step startPage (Type trackUrl)"

definition accepted :: "jsstring option \<Rightarrow> data fetched" where
  "accepted downloadId =
     Resolved \<lparr>response_ok = True, data_download_id = downloadId, data_error = None\<rparr>"

definition processing :: "status fetched" where
  "processing = Resolved \<lparr>status_status = Some (js ''processing''), status_title = None,
     status_output_path = None, status_files = None, status_error = None\<rparr>"

definition completedSong :: "status fetched" where
  "completedSong = Resolved \<lparr>status_status = Some (js ''completed''),
     status_title = Some (js ''Song''), status_output_path = None,
     status_files = Some [js ''song.mp3''], status_error = None\<rparr>"

definition endToEnd :: "jsstring option \<Rightarrow> jsstring \<Rightarrow> jsstring \<Rightarrow> jsstring \<Rightarrow> event list" where
  "endToEnd downloadId t1 t2 t3 =
     [ClickDownload, DownloadReply 0 (accepted downloadId),
      StatusReply 0 processing t1, DelayElapsed 0,
      StatusReply 0 processing t2, DelayElapsed 0,
      StatusReply 0 completedSong t3]"

definition song :: "jsstring \<Rightarrow> jsstring \<Rightarrow> download" where
  "song u now = \<lparr>title = js ''Song'', platform = js ''spotify'', url = u, outputPath = None,
     files = [js ''song.mp3''], timestamp = now\<rparr>"

text \<open>The page when polling starts, and when the run is over.\<close>

definition polled :: state where
  "polled = run typed (take 2 (endToEnd (Some (js ''1'')) (js ''t1'') (js ''t2'') (js ''t3'')))"

definition finished :: state where
  "finished = run typed (endToEnd (Some (js ''1'')) (js ''t1'') (js ''t2'') (js ''t3''))"

text \<open>
  The user clicks the button and then presses Enter in the input field before the first
  job is over; the backend accepts both jobs.
\<close>

definition twoSubmissions :: state where
  "twoSubmissions = run typed
     [ClickDownload, KeyPress (js ''Enter''),
      DownloadReply 0 (accepted (Some (js ''1''))), DownloadReply 1 (accepted (Some (js ''2'')))]"

text \<open>Records that differ in their time stamp.\<close>

definition sample :: "nat \<Rightarrow> download" where
  "sample k = \<lparr>title = js ''Song'', platform = js ''spotify'',
     url = js ''https://open.spotify.com/track/abc'', outputPath = None,
     files = [js ''song.mp3''], timestamp = [of_nat (0x41 + k)]\<rparr>"

text \<open>A stored history of one record.\<close>

definition tiny :: download where
  "tiny = \<lparr>title = js ''a'', platform = js ''b'', url = js ''c'', outputPath = None,
     files = [js ''d''], timestamp = js ''e''\<rparr>"

definition storedTiny :: jsstring where
  "storedTiny = JSON_stringify (JArr [to_json tiny])"

section \<open>The parser never runs out of fuel\<close>

lemma skipWs_length: "length (skipWs s) \<le> length s"
  by (simp add: skipWs_def length_dropWhile_le)

lemma consChar_Some: "consChar c r = Some (str, t) \<Longrightarrow> \<exists>str'. r = Some (str', t)"
  by (auto simp: consChar_def split: option.splits)

lemma lexString_length: "lexString s = Some (str, t) \<Longrightarrow> length t < length s"
proof (induction s arbitrary: str t rule: lexString.induct)
  case 1
  then show ?case by simp
next
  case (2 c s)
  show ?case
  proof (cases "c = 0x22")
    case True
    with 2 show ?thesis by auto
  next
    case quote: False
    show ?thesis
    proof (cases "c = 0x5C")
      case False
      with quote 2 show ?thesis
        by (auto split: if_splits dest!: consChar_Some)
    next
      case True
      with quote 2 show ?thesis
        apply (auto split: if_splits list.splits option.splits dest!: consChar_Some)
        apply fastforce+
        done
    qed
  qed
qed

lemma lexDigits_length: "lexDigits s = Some (ds, t) \<Longrightarrow> length t < length s"
proof -
  assume a: "lexDigits s = Some (ds, t)"
  then have ne: "takeWhile isDigit s \<noteq> []" and t: "t = dropWhile isDigit s"
    by (auto simp: lexDigits_def split: if_splits)
  have "length (takeWhile isDigit s) + length (dropWhile isDigit s) = length s"
    by (metis length_append takeWhile_dropWhile_id)
  with ne t show ?thesis by (cases "takeWhile isDigit s") auto
qed

lemma lexInt_length: "lexInt s = Some (i, t) \<Longrightarrow> length t < length s"
  by (auto simp: lexInt_def less_Suc_eq_le length_dropWhile_le split: list.splits if_splits)

lemma lexFrac_length: "lexFrac s = Some (f, t) \<Longrightarrow> length t \<le> length s"
  by (auto simp: lexFrac_def split: list.splits if_splits option.splits dest!: lexDigits_length)

lemma lexExp_length: "lexExp s = Some (x, t) \<Longrightarrow> length t \<le> length s"
  by (auto simp: lexExp_def split: list.splits if_splits option.splits dest!: lexDigits_length)

lemma lexNumber_length: "lexNumber s = Some (num, t) \<Longrightarrow> length t < length s"
  by (fastforce simp: lexNumber_def split: list.splits if_splits option.splits prod.splits
        dest!: lexInt_length lexFrac_length lexExp_length)

lemma skipWs_Cons_length: "skipWs t = d # u \<Longrightarrow> length u < length t"
  using skipWs_length [of t] by simp

lemma parse_length:
  "(parseValue n s = Parsed v t \<longrightarrow> length t < length s)
   \<and> (parseElements n s = Parsed vs t \<longrightarrow> length t < length s)
   \<and> (parseMembers n s = Parsed ms t \<longrightarrow> length t < length s)"
proof (induction n arbitrary: s v vs ms t)
  case 0
  show ?case by simp
next
  case (Suc n)
  have V: "parseValue n s' = Parsed v' t' \<Longrightarrow> length t' < length s'" for s' v' t'
    using Suc by blast
  have E: "parseElements n s' = Parsed vs' t' \<Longrightarrow> length t' < length s'" for s' vs' t'
    using Suc by blast
  have M: "parseMembers n s' = Parsed ms' t' \<Longrightarrow> length t' < length s'" for s' ms' t'
    using Suc by blast
  have V': "parseValue n (skipWs u) = Parsed v' t' \<Longrightarrow> length t' < length u" for u v' t'
    using V [of "skipWs u" v' t'] skipWs_length [of u] by simp
  have E': "parseElements n (skipWs u) = Parsed vs' t' \<Longrightarrow> length t' < length u" for u vs' t'
    using E [of "skipWs u" vs' t'] skipWs_length [of u] by simp
  have M': "parseMembers n (skipWs u) = Parsed ms' t' \<Longrightarrow> length t' < length u" for u ms' t'
    using M [of "skipWs u" ms' t'] skipWs_length [of u] by simp
  have 1: "length t < length s" if "parseValue (Suc n) s = Parsed v t"
    using that
    by (auto split: list.splits if_splits parsed.splits option.splits
          dest!: skipWs_Cons_length lexString_length lexNumber_length E M)
  have 2: "length t < length s" if "parseElements (Suc n) s = Parsed vs t"
    using that
    by (auto split: list.splits if_splits parsed.splits
          dest!: V E' skipWs_Cons_length)
  have 3: "length t < length s" if "parseMembers (Suc n) s = Parsed ms t"
    using that
    by (auto split: list.splits if_splits parsed.splits option.splits
          dest!: V' M' skipWs_Cons_length lexString_length)
  from 1 2 3 show ?case by blast
qed

lemma parseValue_length: "parseValue n s = Parsed v t \<Longrightarrow> length t < length s"
  using parse_length by blast

lemma parse_fuel:
  "(2 * length s + 1 \<le> n \<longrightarrow> parseValue n s \<noteq> NoFuel)
   \<and> (2 * length s + 2 \<le> n \<longrightarrow> parseElements n s \<noteq> NoFuel)
   \<and> (2 * length s + 2 \<le> n \<longrightarrow> parseMembers n s \<noteq> NoFuel)"
proof (induction n arbitrary: s)
  case 0
  show ?case by simp
next
  case (Suc n)
  have V: "2 * length s' + 1 \<le> n \<Longrightarrow> parseValue n s' \<noteq> NoFuel" for s'
    using Suc by blast
  have E: "2 * length s' + 2 \<le> n \<Longrightarrow> parseElements n s' \<noteq> NoFuel" for s'
    using Suc by blast
  have M: "2 * length s' + 2 \<le> n \<Longrightarrow> parseMembers n s' \<noteq> NoFuel" for s'
    using Suc by blast
  have 1: "parseValue (Suc n) s \<noteq> NoFuel" if le: "2 * length s + 1 \<le> Suc n"
  proof (cases s)
    case Nil
    then show ?thesis by simp
  next
    case (Cons c r)
    have sub: "2 * length (d # u) + 2 \<le> n" if "skipWs r = d # u" for d u
      using skipWs_length [of r] that le Cons by simp
    consider (arr) "c = 0x5B" | (obj) "c \<noteq> 0x5B" "c = 0x7B" | (atom) "c \<noteq> 0x5B" "c \<noteq> 0x7B"
      by blast
    then show ?thesis
    proof cases
      case arr
      show ?thesis
      proof (cases "skipWs r")
        case Nil
        with Cons arr show ?thesis by simp
      next
        case (Cons d u)
        with \<open>s = c # r\<close> arr E [OF sub [OF Cons]] show ?thesis
          by (simp split: parsed.splits)
      qed
    next
      case obj
      show ?thesis
      proof (cases "skipWs r")
        case Nil
        with Cons obj show ?thesis by simp
      next
        case (Cons d u)
        with \<open>s = c # r\<close> obj M [OF sub [OF Cons]] show ?thesis
          by (simp split: parsed.splits)
      qed
    next
      case atom
      with Cons show ?thesis
        by (simp split: option.splits)
    qed
  qed
  have 2: "parseElements (Suc n) s \<noteq> NoFuel" if le: "2 * length s + 2 \<le> Suc n"
  proof -
    have v: "parseValue n s \<noteq> NoFuel"
      using V [of s] le by simp
    have e: "parseElements n (skipWs u) \<noteq> NoFuel"
      if "parseValue n s = Parsed w t" "skipWs t = d # u" for w t d u
    proof -
      have "length t < length s" using that(1) by (rule parseValue_length)
      moreover have "length u < length t" using that(2) by (rule skipWs_Cons_length)
      ultimately have "2 * length (skipWs u) + 2 \<le> n"
        using skipWs_length [of u] le by simp
      then show ?thesis by (rule E)
    qed
    show ?thesis
      using v e by (auto split: list.splits parsed.splits)
  qed
  have 3: "parseMembers (Suc n) s \<noteq> NoFuel" if le: "2 * length s + 2 \<le> Suc n"
  proof (cases s)
    case Nil
    then show ?thesis by simp
  next
    case (Cons q r)
    have v: False
      if "lexString r = Some (k, t)" "skipWs t = c # u"
         "parseValue n (skipWs u) = NoFuel" for k t c u
    proof -
      have "length t < length r" using that(1) by (rule lexString_length)
      moreover have "length u < length t" using that(2) by (rule skipWs_Cons_length)
      ultimately have "2 * length (skipWs u) + 1 \<le> n"
        using skipWs_length [of u] le Cons by simp
      then have "parseValue n (skipWs u) \<noteq> NoFuel" by (rule V)
      with that(3) show ?thesis by simp
    qed
    have m: False
      if "lexString r = Some (k, t)" "skipWs t = c # u"
         "parseValue n (skipWs u) = Parsed w y" "skipWs y = d # x"
         "parseMembers n (skipWs x) = NoFuel" for k t c u w y d x
    proof -
      have "length t < length r" using that(1) by (rule lexString_length)
      moreover have "length u < length t" using that(2) by (rule skipWs_Cons_length)
      moreover have "length y < length (skipWs u)" using that(3) by (rule parseValue_length)
      moreover have "length x < length y" using that(4) by (rule skipWs_Cons_length)
      ultimately have "2 * length (skipWs x) + 2 \<le> n"
        using skipWs_length [of x] skipWs_length [of u] le Cons by simp
      then have "parseMembers n (skipWs x) \<noteq> NoFuel" by (rule M)
      with that(5) show ?thesis by simp
    qed
    show ?thesis
      using Cons by (auto split: list.splits parsed.splits option.splits intro: v m)
  qed
  from 1 2 3 show ?case by blast
qed

lemma JSON_parse_fuel: "parseValue (2 * length s + 1) (skipWs s) \<noteq> NoFuel"
  using parse_fuel [of "skipWs s" "2 * length s + 1"] skipWs_length [of s] by simp

section \<open>Facts about the history store\<close>

lemma updateDownloadsList_fields:
  "updateDownloadsList st = Inr st' \<Longrightarrow> \<exists>ls. st' = st\<lparr>downloadsList := ls\<rparr>"
  by (auto simp: updateDownloadsList_def split: if_splits sum.splits)

lemma addDownload_fields:
  "\<exists>ls. fst (addDownload d st) =
     st\<lparr>downloads := take 10 (d # downloads st),
        localStorage := Some (JSON_stringify (JArr (map to_json (take 10 (d # downloads st))))),
        downloadsList := ls\<rparr>"
proof -
  let ?st = "st\<lparr>downloads := take 10 (d # downloads st),
        localStorage := Some (JSON_stringify (JArr (map to_json (take 10 (d # downloads st)))))\<rparr>"
  have kept: "(if length (d # downloads st) > 10 then take 10 (d # downloads st) else d # downloads st)
              = take 10 (d # downloads st)"
    by simp
  show ?thesis
  proof (cases "updateDownloadsList ?st")
    case (Inl e)
    have "fst (addDownload d st) = ?st"
      unfolding addDownload_def Let_def kept using Inl by simp
    then have "fst (addDownload d st) = ?st\<lparr>downloadsList := downloadsList st\<rparr>"
      by simp
    then show ?thesis by (intro exI [of _ "downloadsList st"]) simp
  next
    case (Inr st')
    then obtain ls where "st' = ?st\<lparr>downloadsList := ls\<rparr>"
      using updateDownloadsList_fields by blast
    moreover have "fst (addDownload d st) = st'"
      unfolding addDownload_def Let_def kept using Inr by simp
    ultimately show ?thesis by (intro exI [of _ ls]) simp
  qed
qed

lemma downloads_addDownload:
  "downloads (fst (addDownload d st)) = take 10 (d # downloads st)"
  using addDownload_fields [of d st] by (elim exE) simp

lemma localStorage_addDownload:
  "localStorage (fst (addDownload d st))
   = Some (JSON_stringify (JArr (map to_json (take 10 (d # downloads st)))))"
  using addDownload_fields [of d st] by (elim exE) simp

lemma addDownload_keeps:
  "statusLog (fst (addDownload d st)) = statusLog st"
  "tasks (fst (addDownload d st)) = tasks st"
  "requests (fst (addDownload d st)) = requests st"
  "btnDisabled (fst (addDownload d st)) = btnDisabled st"
  "currentPlatform (fst (addDownload d st)) = currentPlatform st"
  using addDownload_fields [of d st] by (elim exE, simp)+

lemma addDownload_head: "addDownload d st = (st', e) \<Longrightarrow> hd (downloads st') = d"
  using downloads_addDownload [of d st] by simp

lemma take_append_take: "take n (xs @ take n ys) = take n (xs @ ys)"
  by (simp add: min_def)

lemma downloads_commits:
  "downloads (commits (r # rs) st) = take 10 (rev (r # rs) @ downloads st)"
proof (induction rs arbitrary: r st)
  case Nil
  show ?case by (simp add: commits_def downloads_addDownload)
next
  case (Cons r' rs)
  have "commits (r # r' # rs) st = commits (r' # rs) (fst (addDownload r st))"
    by (simp add: commits_def)
  then have "downloads (commits (r # r' # rs) st)
             = take 10 (rev (r' # rs) @ take 10 (r # downloads st))"
    by (simp only: Cons downloads_addDownload)
  then show ?case by (simp only: take_append_take) simp
qed

lemma eleven_commits:
  assumes "downloads st = []" "length rs = 11"
  shows "downloads (commits rs st) = rev (tl rs)"
proof -
  from assms(2) obtain r rs' where rs: "rs = r # rs'" and len: "length rs' = 10"
    by (cases rs) auto
  have "downloads (commits rs st) = take 10 (rev rs' @ [r])"
    using downloads_commits [of r rs' st] assms(1) rs by simp
  also have "\<dots> = rev rs'"
    using len by simp
  finally show ?thesis using rs by simp
qed

section \<open>Facts about \<^verbatim>\<open>encodeURIComponent\<close>\<close>

lemma unescaped_not_surrogate: "unescaped c \<Longrightarrow> \<not> isLead c \<and> \<not> isTrail c"
  by (auto simp: unescaped_def isLead_def isTrail_def word_le_nat_alt)

lemma prepend_Inr: "prepend p r = Inr t \<longleftrightarrow> (\<exists>t'. r = Inr t' \<and> t = p @ t')"
  by (auto simp: prepend_def split: sum.splits)

lemma prepend_Inl: "prepend p r = Inl e \<longleftrightarrow> r = Inl e"
  by (auto simp: prepend_def split: sum.splits)

lemma encodeURIComponent_wellFormed:
  "(\<exists>enc. encodeURIComponent s = Inr enc) \<longleftrightarrow> wellFormed s"
proof (induction s rule: encodeURIComponent.induct)
  case 1
  show ?case by simp
next
  case (2 c s)
  show ?case
  proof (cases "unescaped c")
    case True
    with 2 unescaped_not_surrogate [of c] show ?thesis
      by (simp add: prepend_Inr)
  next
    case esc: False
    show ?thesis
    proof (cases "isLead c")
      case False
      with esc 2 show ?thesis by (simp add: prepend_Inr)
    next
      case True
      with esc 2 show ?thesis
        by (cases s) (simp_all add: prepend_Inr)
    qed
  qed
qed

lemma encodeURIComponent_error:
  "encodeURIComponent s = Inl e \<Longrightarrow> e = URIError"
  by (induction s rule: encodeURIComponent.induct)
     (auto simp: prepend_Inl split: if_splits list.splits)

lemma unat_small: "k < 65536 \<Longrightarrow> unat (of_nat k :: 16 word) = k"
  by (simp add: unsigned_of_nat take_bit_nat_eq_self)

lemma hexDigit_unescaped:
  assumes "n < 16"
  shows "unescaped (hexDigit n)"
proof (cases "n < 10")
  case True
  then have "unat (hexDigit n) = 0x30 + n"
    using unat_small [of "0x30 + n"] by (simp add: hexDigit_def del: of_nat_add)
  with True show ?thesis
    by (simp add: unescaped_def word_le_nat_alt)
next
  case False
  with assms have "unat (hexDigit n) = 0x41 + (n - 10)"
    using unat_small [of "0x41 + (n - 10)"] by (simp add: hexDigit_def del: of_nat_add)
  with assms False show ?thesis
    by (simp add: unescaped_def word_le_nat_alt)
qed

lemma percent_safe: "octet < 256 \<Longrightarrow> c \<in> set (percent octet) \<Longrightarrow> unescaped c \<or> c = 0x25"
proof -
  assume o: "octet < 256" and c: "c \<in> set (percent octet)"
  have "octet div 16 < 16" "octet mod 16 < 16" using o by simp_all
  then have "unescaped (hexDigit (octet div 16))" "unescaped (hexDigit (octet mod 16))"
    by (simp_all add: hexDigit_unescaped)
  with c show ?thesis by (auto simp: percent_def)
qed

lemma utf8_octets: "cp < 0x110000 \<Longrightarrow> octet \<in> set (utf8 cp) \<Longrightarrow> octet < 256"
  by (auto simp: utf8_def split: if_splits)

lemma escape_safe:
  "cp < 0x110000 \<Longrightarrow> c \<in> set (escape cp) \<Longrightarrow> unescaped c \<or> c = 0x25"
  by (auto simp: escape_def dest: utf8_octets percent_safe)

lemma codePoint_bound: "isLead c \<Longrightarrow> isTrail d \<Longrightarrow> codePoint c d < 0x110000"
proof -
  assume "isLead c" "isTrail d"
  then have "unat c \<le> 0xDBFF" "0xDC00 \<le> unat d" "unat d \<le> 0xDFFF"
    by (simp_all add: isLead_def isTrail_def word_le_nat_alt)
  then show ?thesis
    unfolding codePoint_def by arith
qed

lemma unat_bound: "unat (c :: 16 word) < 0x110000"
  using unsigned_less [of c, where 'a = nat] by simp

lemma encodeURIComponent_safe:
  "encodeURIComponent s = Inr enc \<Longrightarrow> c \<in> set enc \<Longrightarrow> unescaped c \<or> c = 0x25"
proof (induction s arbitrary: enc rule: encodeURIComponent.induct)
  case 1
  then show ?case by simp
next
  case (2 x s)
  show ?case
  proof (cases "unescaped x")
    case True
    with 2 show ?thesis
      by (auto simp: prepend_Inr)
  next
    case esc: False
    show ?thesis
    proof (cases "isLead x")
      case False
      with esc 2 show ?thesis
        by (auto simp: prepend_Inr split: if_splits dest: escape_safe [OF unat_bound])
    next
      case True
      with esc 2 show ?thesis
        by (cases s) (auto simp: prepend_Inr split: if_splits dest: escape_safe [OF codePoint_bound])
    qed
  qed
qed

lemma reserved_not_unescaped:
  "\<not> unescaped 0x2F" "\<not> unescaped 0x3F" "\<not> unescaped 0x23" "\<not> unescaped 0x26"
  by (simp_all add: unescaped_def)

lemma fileLink_Inr:
  "encodeURIComponent name = Inr enc \<Longrightarrow>
   fileLink st d name =
     Inr \<lparr>href = apiUrl st @ js ''/download-file/'' @ platform d @ js ''/'' @ enc, label = name\<rparr>"
  by (simp add: fileLink_def)

section \<open>Facts about rendering\<close>

lemma sequence_Inr:
  "(\<And>x. x \<in> set xs \<Longrightarrow> \<exists>v. f x = Inr v) \<Longrightarrow> \<exists>vs. sequence (map f xs) = Inr vs"
proof (induction xs)
  case Nil
  show ?case by simp
next
  case (Cons x xs)
  then obtain v vs where "f x = Inr v" "sequence (map f xs) = Inr vs"
    by (metis list.set_intros(1) list.set_intros(2))
  then show ?case by simp
qed

lemma renderDownloadLinks_Inr:
  assumes "list_all wellFormed (files d)"
  shows "\<exists>ls. renderDownloadLinks st d = Inr ls"
proof -
  have "\<exists>l. fileLink st d name = Inr l" if "name \<in> set (files d)" for name
  proof -
    from that assms have "wellFormed name" by (simp add: list_all_iff)
    then obtain enc where "encodeURIComponent name = Inr enc"
      using encodeURIComponent_wellFormed by blast
    then show ?thesis by (simp add: fileLink_def)
  qed
  then have "\<exists>ls. sequence (map (fileLink st d) (files d)) = Inr ls"
    by (rule sequence_Inr)
  then show ?thesis by (simp add: renderDownloadLinks_def)
qed

lemma updateDownloadsList_Inr:
  assumes "renderable (downloads st)"
  shows "\<exists>st'. updateDownloadsList st = Inr st'"
proof -
  have "\<exists>ls. renderDownloadLinks st d = Inr ls" if "d \<in> set (downloads st)" for d
    using that assms renderDownloadLinks_Inr by (simp add: renderable_def list_all_iff)
  then have "\<exists>ls. sequence (map (renderDownloadLinks st) (downloads st)) = Inr ls"
    by (rule sequence_Inr)
  then show ?thesis by (auto simp: updateDownloadsList_def)
qed

lemma renderable_take: "renderable ds \<Longrightarrow> renderable (take n ds)"
  by (auto simp: renderable_def list_all_iff dest: in_set_takeD)

lemma addDownload_ok:
  assumes "renderable (d # downloads st)"
  shows "snd (addDownload d st) = None"
proof -
  let ?st = "st\<lparr>downloads := take 10 (d # downloads st),
        localStorage := Some (JSON_stringify (JArr (map to_json (take 10 (d # downloads st)))))\<rparr>"
  have kept: "(if length (d # downloads st) > 10 then take 10 (d # downloads st) else d # downloads st)
              = take 10 (d # downloads st)"
    by simp
  have "renderable (downloads ?st)"
    using renderable_take [OF assms, of 10] by simp
  then obtain st' where "updateDownloadsList ?st = Inr st'"
    using updateDownloadsList_Inr by blast
  then show ?thesis
    unfolding addDownload_def Let_def kept by simp
qed

lemma renderable_song: "renderable ds \<Longrightarrow> renderable (song u now # ds)"
  by (simp add: renderable_def song_def js_def isLead_def isTrail_def)

lemma onStatusReply_completed:
  assumes "status_status s = Some (js ''completed'')"
    and "snd (addDownload (downloadData st u s now)
                (logStatus FilesReady Success (logStatus Completed Success st))) = None"
  shows "onStatusReply i downloadId u (Resolved s) now st
         = finish i ((fst (addDownload (downloadData st u s now)
               (logStatus FilesReady Success (logStatus Completed Success st))))\<lparr>urlInput := []\<rparr>)"
proof (cases "addDownload (downloadData st u s now)
                (logStatus FilesReady Success (logStatus Completed Success st))")
  case (Pair st' e)
  with assms(2) have "e = None" by simp
  with Pair assms(1) show ?thesis by (simp add: onStatusReply_def)
qed

section \<open>Facts about validation and start-up\<close>

lemma patterns_youtube:
  "map_of patterns (js ''youtube-audio'') = map_of patterns (js ''youtube-video'')"
  by (simp add: patterns_def js_def)

lemma trim_Nil: "trim [] = []"
  by (simp add: trim_def)

lemma trim_all_whitespace:
  assumes "list_all isWhiteSpace s"
  shows "trim s = []"
proof -
  have "dropWhile isWhiteSpace s = []"
    using assms by (simp add: list_all_iff)
  then show ?thesis by (simp only: trim_def rev.simps dropWhile.simps)
qed

lemma orElse_nonempty: "d \<noteq> [] \<Longrightarrow> orElse v d \<noteq> []"
  by (simp add: orElse_def split: option.splits)

lemma parse_empty_array: "JSON_parse (js ''[]'') = Inr (JArr [])"
  by code_simp

section \<open>Evaluating concrete runs\<close>

lemmas run_defs =
  emitted_def polled_def finished_def twoSubmissions_def typed_def startPage_def newPage_def
  trackUrl_def endToEnd_def accepted_def processing_def completedSong_def run_def
  logStatus_def startDownload_def simulateDownload_def validateUrl_def patterns_def
  trim_def isWhiteSpace_def task_at_def onDownloadReply_def pollDownloadStatus_def
  onStatusReply_def downloadData_def orElse_def addDownload_def updateDownloadsList_def
  renderDownloadLinks_def fileLink_def finish_def polling_def renderable_def js_def
  unescaped_def isLead_def isTrail_def prepend_def escape_def percent_def utf8_def hexDigit_def
  Let_def

text \<open>
  C7. A submission with an empty URL, through either entry point (the Enter key, or the
  button when it is enabled), appends exactly one error event \<open>Please enter a URL\<close> to
  the status log and changes nothing else: no request is issued and no task is started,
  so an idle page stays idle.
\<close>

theorem empty_url_rejected:
  assumes "urlInput st = []"
  shows "startDownload st = st\<lparr>statusLog := statusLog st @ [(EnterUrl, Error)]\<rparr>
         \<and> step st (KeyPress (js ''Enter'')) = st\<lparr>statusLog := statusLog st @ [(EnterUrl, Error)]\<rparr>
         \<and> (\<not> btnDisabled st \<longrightarrow>
              step st ClickDownload = st\<lparr>statusLog := statusLog st @ [(EnterUrl, Error)]\<rparr>)
         \<and> requests (startDownload st) = requests st
         \<and> tasks (startDownload st) = tasks st"
  using assms by (simp add: startDownload_def trim_Nil logStatus_def)

theorem empty_url_rejected_witness:
  "urlInput startPage = [] \<and> \<not> btnDisabled startPage
   \<and> step startPage ClickDownload = startPage\<lparr>statusLog := [(Initialized, Info), (EnterUrl, Error)]\<rparr>
   \<and> step startPage (KeyPress (js ''Enter'')) = startPage\<lparr>statusLog := [(Initialized, Info), (EnterUrl, Error)]\<rparr>
   \<and> requests (startDownload startPage) = [] \<and> tasks (startDownload startPage) = []"
proof -
  have h: "urlInput startPage = []"
    by (simp add: startPage_def newPage_def logStatus_def)
  show ?thesis
    using h empty_url_rejected [OF h]
    by (simp add: startPage_def newPage_def logStatus_def)
qed

text \<open>
  C8. For every URL, \<^verbatim>\<open>validateUrl\<close> gives the same answer when the selected platform is
  \<^verbatim>\<open>youtube-audio\<close> as when it is \<^verbatim>\<open>youtube-video\<close>.
\<close>

theorem youtube_audio_video_agree:
  "validateUrl (st\<lparr>currentPlatform := js ''youtube-audio''\<rparr>) u
   = validateUrl (st\<lparr>currentPlatform := js ''youtube-video''\<rparr>) u"
  by (simp add: validateUrl_def patterns_youtube)

theorem youtube_audio_video_agree_witness:
  "validateUrl (startPage\<lparr>currentPlatform := js ''youtube-audio''\<rparr>) (js ''https://youtu.be/abc'')
   \<and> validateUrl (startPage\<lparr>currentPlatform := js ''youtube-video''\<rparr>) (js ''https://youtu.be/abc'')
   \<and> \<not> validateUrl (startPage\<lparr>currentPlatform := js ''youtube-audio''\<rparr>) (js ''https://vimeo.com/1'')
   \<and> \<not> validateUrl (startPage\<lparr>currentPlatform := js ''youtube-video''\<rparr>) (js ''https://vimeo.com/1'')"
proof -
  have a: "validateUrl (startPage\<lparr>currentPlatform := js ''youtube-audio''\<rparr>) (js ''https://youtu.be/abc'')"
    by (simp add: validateUrl_def patterns_def js_def)
  have b: "\<not> validateUrl (startPage\<lparr>currentPlatform := js ''youtube-audio''\<rparr>) (js ''https://vimeo.com/1'')"
    by (simp add: validateUrl_def patterns_def js_def)
  show ?thesis
    using a b youtube_audio_video_agree [of startPage "js ''https://youtu.be/abc''"]
      youtube_audio_video_agree [of startPage "js ''https://vimeo.com/1''"]
    by simp
qed

text \<open>
  C10. The input is trimmed before the emptiness check: when every code unit of the input
  is one that \<^verbatim>\<open>trim\<close> strips (ECMAScript WhiteSpace or LineTerminator), the submission
  is rejected exactly as an empty one is, with the single error event
  \<open>Please enter a URL\<close>, without reaching the platform pattern (whose rejection would
  log \<open>Invalid URL\<close>) and without any request.
\<close>

theorem whitespace_url_rejected:
  assumes "list_all isWhiteSpace (urlInput st)"
  shows "startDownload st = st\<lparr>statusLog := statusLog st @ [(EnterUrl, Error)]\<rparr>
         \<and> startDownload st = (startDownload (st\<lparr>urlInput := []\<rparr>))\<lparr>urlInput := urlInput st\<rparr>
         \<and> requests (startDownload st) = requests st
         \<and> tasks (startDownload st) = tasks st"
  using assms by (simp add: startDownload_def trim_all_whitespace trim_Nil logStatus_def)

theorem whitespace_url_rejected_witness:
  "list_all isWhiteSpace [0x20, 0x9, 0xA0, 0x3000]
   \<and> step (step startPage (Type [0x20, 0x9, 0xA0, 0x3000])) ClickDownload
      = startPage\<lparr>urlInput := [0x20, 0x9, 0xA0, 0x3000],
                  statusLog := [(Initialized, Info), (EnterUrl, Error)]\<rparr>
   \<and> requests (step (step startPage (Type [0x20, 0x9, 0xA0, 0x3000])) ClickDownload) = []"
proof -
  have h: "list_all isWhiteSpace (urlInput (startPage\<lparr>urlInput := [0x20, 0x9, 0xA0, 0x3000]\<rparr>))"
    by (simp add: isWhiteSpace_def)
  show ?thesis
    using h whitespace_url_rejected [OF h]
    by (simp add: startPage_def newPage_def logStatus_def)
qed

section \<open>Loading the history\<close>

lemma init_empty: "init (newPage [] item) = Inr (logStatus Initialized Info (newPage [] item))"
  by (simp add: init_def updateDownloadsList_def newPage_def)

lemma init_renderable:
  assumes "renderable ds"
  shows "\<exists>ls. init (newPage ds item)
              = Inr (logStatus Initialized Info ((newPage ds item)\<lparr>downloadsList := ls\<rparr>))"
proof -
  have "renderable (downloads (newPage ds item))"
    using assms by (simp add: newPage_def)
  then obtain st' where st': "updateDownloadsList (newPage ds item) = Inr st'"
    using updateDownloadsList_Inr by blast
  then obtain ls where "st' = (newPage ds item)\<lparr>downloadsList := ls\<rparr>"
    using updateDownloadsList_fields by blast
  with st' have "init (newPage ds item)
              = Inr (logStatus Initialized Info ((newPage ds item)\<lparr>downloadsList := ls\<rparr>))"
    by (simp add: init_def)
  then show ?thesis by blast
qed

text \<open>
  C1, as the code has it. When nothing is stored, or the empty string is, the history in
  memory is the empty sequence and start-up completes with its one log line. When the
  stored text is not JSON, the \<^verbatim>\<open>SyntaxError\<close> of \<^verbatim>\<open>JSON.parse\<close> leaves the constructor:
  no page is started. When the stored text is a history whose file names are well
  formed, that history is loaded and start-up completes.
\<close>

theorem load_history:
  "(item = None \<or> item = Some [] \<longrightarrow>
      constructor item = Started (logStatus Initialized Info (newPage [] item)))
   \<and> (t \<noteq> [] \<and> JSON_parse t = Inl e \<longrightarrow> constructor (Some t) = Threw e)
   \<and> (t \<noteq> [] \<and> JSON_parse t = Inr v \<and> as_history v = Some ds \<and> renderable ds \<longrightarrow>
        (\<exists>ls. constructor (Some t)
               = Started (logStatus Initialized Info
                   ((newPage ds (Some t))\<lparr>downloadsList := ls\<rparr>))))"
proof -
  have 3: "\<exists>ls. constructor (Some t)
               = Started (logStatus Initialized Info
                   ((newPage ds (Some t))\<lparr>downloadsList := ls\<rparr>))"
    if "t \<noteq> []" "JSON_parse t = Inr v" "as_history v = Some ds" "renderable ds"
  proof -
    from init_renderable [OF that(4), of "Some t"] obtain ls where
      "init (newPage ds (Some t))
         = Inr (logStatus Initialized Info ((newPage ds (Some t))\<lparr>downloadsList := ls\<rparr>))"
      by blast
    with that(1-3) have "constructor (Some t)
               = Started (logStatus Initialized Info
                   ((newPage ds (Some t))\<lparr>downloadsList := ls\<rparr>))"
      by (simp add: constructor_def)
    then show ?thesis by blast
  qed
  show ?thesis
    using 3 by (auto simp: constructor_def parse_empty_array as_history_def init_empty)
qed

theorem load_history_witness:
  "constructor None = Started startPage
   \<and> downloads startPage = [] \<and> statusLog startPage = [(Initialized, Info)]
   \<and> js ''[1,'' \<noteq> [] \<and> JSON_parse (js ''[1,'') = Inl SyntaxError
   \<and> constructor (Some (js ''[1,'')) = Threw SyntaxError
   \<and> storedTiny \<noteq> [] \<and> JSON_parse storedTiny = Inr (JArr [to_json tiny])
   \<and> as_history (JArr [to_json tiny]) = Some [tiny] \<and> renderable [tiny]
   \<and> (\<exists>ls. constructor (Some storedTiny)
          = Started (logStatus Initialized Info
              ((newPage [tiny] (Some storedTiny))\<lparr>downloadsList := ls\<rparr>)))"
proof -
  have h: "js ''[1,'' \<noteq> []" "JSON_parse (js ''[1,'') = Inl SyntaxError"
    by code_simp+
  have d: "downloads startPage = []" "statusLog startPage = [(Initialized, Info)]"
    by code_simp+
  have s: "storedTiny \<noteq> []" "JSON_parse storedTiny = Inr (JArr [to_json tiny])"
    "as_history (JArr [to_json tiny]) = Some [tiny]" "renderable [tiny]"
    by code_simp+
  show ?thesis
    using h d s
      load_history [where item = None and t = "js ''[1,''" and e = SyntaxError]
      load_history [where t = storedTiny and v = "JArr [to_json tiny]" and ds = "[tiny]"]
    by (simp add: startPage_def)
qed

text \<open>
  The claim as stated fails: with the stored text \<^verbatim>\<open>{\<close> the load raises instead of
  giving the empty history.
\<close>

theorem corrupt_history_counterexample:
  "constructor (Some (js ''{'')) = Threw SyntaxError"
  by code_simp

section \<open>One download at a time\<close>

text \<open>
  C2 does not hold of the code. A click on the disabled button does nothing, but the
  Enter key in the input field calls \<^verbatim>\<open>startDownload\<close> all the same: after a click and
  an Enter, two requests are pending, and once both are accepted two polling loops run
  side by side.
\<close>

theorem enter_key_starts_second_poll_loop:
  "btnDisabled (step typed ClickDownload)
   \<and> step (step typed ClickDownload) ClickDownload = step typed ClickDownload
   \<and> tasks (step (step typed ClickDownload) (KeyPress (js ''Enter'')))
       = [AwaitDownload trackUrl, AwaitDownload trackUrl]
   \<and> tasks twoSubmissions
       = [AwaitStatus (Some (js ''1'')) trackUrl, AwaitStatus (Some (js ''2'')) trackUrl]
   \<and> length (filter polling (tasks twoSubmissions)) = 2"
proof -
  have 1: "btnDisabled (step typed ClickDownload)"
    by (simp add: run_defs)
  have 2: "step (step typed ClickDownload) ClickDownload = step typed ClickDownload"
    using 1 by (simp del: step.simps(3) add: step.simps(3) [of "step typed ClickDownload"])
  have 3: "tasks (step (step typed ClickDownload) (KeyPress (js ''Enter'')))
       = [AwaitDownload trackUrl, AwaitDownload trackUrl]"
    by (simp add: run_defs)
  have 4: "tasks twoSubmissions
       = [AwaitStatus (Some (js ''1'')) trackUrl, AwaitStatus (Some (js ''2'')) trackUrl]"
    by (simp add: run_defs)
  have 5: "length (filter polling (tasks twoSubmissions)) = 2"
    by (simp add: 4 polling_def)
  from 1 2 3 4 5 show ?thesis by blast
qed

section \<open>The end-to-end run\<close>

text \<open>
  C3, as the code has it. On an idle page with Spotify selected, a valid URL in the input
  field and a history that renders, the run of the end-to-end test puts exactly one
  record, \<open>song\<close>, at the head of the history, and logs nothing before polling starts
  and exactly four lines during polling: two of type info and two of type success
  (\<open>Download completed\<close> and \<open>Files ready for download\<close>).
\<close>

theorem end_to_end_download:
  assumes idle: "tasks st = []" "\<not> btnDisabled st"
    and spotify: "currentPlatform st = js ''spotify''"
    and valid: "trim (urlInput st) = u" "u \<noteq> []" "validateUrl st u"
    and history: "renderable (downloads st)"
  shows "downloads (run st (endToEnd downloadId t1 t2 t3)) = take 10 (song u t3 # downloads st)
    \<and> hd (downloads (run st (endToEnd downloadId t1 t2 t3))) = song u t3
    \<and> statusLog (run st (take 2 (endToEnd downloadId t1 t2 t3))) = statusLog st
    \<and> statusLog (run st (endToEnd downloadId t1 t2 t3))
        = statusLog st @
          [(Progress (js ''spotify'') (Some (js ''processing'')), Info),
           (Progress (js ''spotify'') (Some (js ''processing'')), Info),
           (Completed, Success), (FilesReady, Success)]
    \<and> requests (run st (endToEnd downloadId t1 t2 t3))
        = requests st @ [PostDownload u (js ''spotify''), GetStatus downloadId,
                         GetStatus downloadId, GetStatus downloadId]
    \<and> tasks (run st (endToEnd downloadId t1 t2 t3)) = []
    \<and> \<not> btnDisabled (run st (endToEnd downloadId t1 t2 t3))"
proof -
  define s1 where "s1 = step st ClickDownload"
  define s2 where "s2 = step s1 (DownloadReply 0 (accepted downloadId))"
  define s3 where "s3 = step s2 (StatusReply 0 processing t1)"
  define s4 where "s4 = step s3 (DelayElapsed 0)"
  define s5 where "s5 = step s4 (StatusReply 0 processing t2)"
  define s6 where "s6 = step s5 (DelayElapsed 0)"
  define s7 where "s7 = step s6 (StatusReply 0 completedSong t3)"
  have r: "run st (endToEnd downloadId t1 t2 t3) = s7"
    by (simp only: run_def endToEnd_def foldl.simps s1_def s2_def s3_def s4_def s5_def s6_def s7_def)
  have r2: "run st (take 2 (endToEnd downloadId t1 t2 t3)) = s2"
    by (simp add: run_def endToEnd_def s1_def s2_def)
  have 1: "s1 = st\<lparr>btnDisabled := True, btnText := js ''Downloading...'',
      requests := requests st @ [PostDownload u (js ''spotify'')],
      tasks := [AwaitDownload u]\<rparr>"
    using idle spotify valid
    by (simp add: s1_def startDownload_def simulateDownload_def)
  have 2: "s2 = s1\<lparr>requests := requests st @ [PostDownload u (js ''spotify''), GetStatus downloadId],
      tasks := [AwaitStatus downloadId u]\<rparr>"
    by (simp add: s2_def 1 task_at_def accepted_def onDownloadReply_def pollDownloadStatus_def)
  have 3: "s3 = s2\<lparr>statusLog := statusLog st @ [(Progress (js ''spotify'') (Some (js ''processing'')), Info)],
      tasks := [AwaitDelay downloadId u]\<rparr>"
    using spotify
    by (simp add: s3_def 2 1 task_at_def processing_def onStatusReply_def logStatus_def js_def)
  have 4: "s4 = s3\<lparr>requests := requests st @ [PostDownload u (js ''spotify''), GetStatus downloadId,
        GetStatus downloadId],
      tasks := [AwaitStatus downloadId u]\<rparr>"
    by (simp add: s4_def 3 2 1 task_at_def pollDownloadStatus_def)
  have 5: "s5 = s4\<lparr>statusLog := statusLog st @
        [(Progress (js ''spotify'') (Some (js ''processing'')), Info),
         (Progress (js ''spotify'') (Some (js ''processing'')), Info)],
      tasks := [AwaitDelay downloadId u]\<rparr>"
    using spotify
    by (simp add: s5_def 4 3 2 1 task_at_def processing_def onStatusReply_def logStatus_def js_def)
  have 6: "s6 = s5\<lparr>requests := requests st @ [PostDownload u (js ''spotify''), GetStatus downloadId,
        GetStatus downloadId, GetStatus downloadId],
      tasks := [AwaitStatus downloadId u]\<rparr>"
    by (simp add: s6_def 5 4 3 2 1 task_at_def pollDownloadStatus_def)
  obtain s where s: "completedSong = Resolved s" "status_status s = Some (js ''completed'')"
    "downloadData s6 u s t3 = song u t3"
    using spotify
    by (simp add: completedSong_def downloadData_def song_def orElse_def 6 5 4 3 2 1 js_def)
  let ?logged = "logStatus FilesReady Success (logStatus Completed Success s6)"
  have "renderable (song u t3 # downloads ?logged)"
    using history by (simp add: renderable_song logStatus_def 6 5 4 3 2 1)
  then have ok: "snd (addDownload (downloadData s6 u s t3) ?logged) = None"
    by (simp only: s addDownload_ok)
  have t6: "task_at s6 0 = Some (AwaitStatus downloadId u)"
    by (simp add: task_at_def 6)
  have 7: "s7 = finish 0 ((fst (addDownload (song u t3) ?logged))\<lparr>urlInput := []\<rparr>)"
    using onStatusReply_completed [OF s(2) ok, of 0 downloadId] t6
    by (simp add: s7_def s)
  have d7: "downloads s7 = take 10 (song u t3 # downloads st)"
    by (simp add: 7 finish_def downloads_addDownload logStatus_def 6 5 4 3 2 1)
  have l7: "statusLog s7 = statusLog st @
          [(Progress (js ''spotify'') (Some (js ''processing'')), Info),
           (Progress (js ''spotify'') (Some (js ''processing'')), Info),
           (Completed, Success), (FilesReady, Success)]"
    by (simp add: 7 finish_def addDownload_keeps logStatus_def 6 5 4 3 2 1)
  have q7: "requests s7 = requests st @ [PostDownload u (js ''spotify''), GetStatus downloadId,
                         GetStatus downloadId, GetStatus downloadId]"
    by (simp add: 7 finish_def addDownload_keeps logStatus_def 6 5 4 3 2 1)
  have t7: "tasks s7 = []" "\<not> btnDisabled s7"
    by (simp_all add: 7 finish_def addDownload_keeps logStatus_def 6 5 4 3 2 1)
  have l2: "statusLog s2 = statusLog st"
    by (simp add: 2 1)
  show ?thesis
    unfolding r r2 using d7 l7 q7 t7 l2 by simp
qed

theorem end_to_end_download_witness:
  "tasks typed = [] \<and> \<not> btnDisabled typed \<and> currentPlatform typed = js ''spotify''
   \<and> trim (urlInput typed) = trackUrl \<and> trackUrl \<noteq> [] \<and> validateUrl typed trackUrl
   \<and> renderable (downloads typed)
   \<and> downloads finished = [song trackUrl (js ''t3'')]
   \<and> statusLog finished
        = [(Initialized, Info),
           (Progress (js ''spotify'') (Some (js ''processing'')), Info),
           (Progress (js ''spotify'') (Some (js ''processing'')), Info),
           (Completed, Success), (FilesReady, Success)]
   \<and> tasks finished = []"
proof -
  have h: "tasks typed = []" "\<not> btnDisabled typed" "currentPlatform typed = js ''spotify''"
    "trim (urlInput typed) = trackUrl" "trackUrl \<noteq> []" "validateUrl typed trackUrl"
    "renderable (downloads typed)"
    by (simp_all add: run_defs)
  have d: "downloads typed = []" "statusLog typed = [(Initialized, Info)]"
    by (simp_all add: run_defs)
  show ?thesis
    using h d end_to_end_download [OF h, of "Some (js ''1'')" "js ''t1''" "js ''t2''" "js ''t3''"]
    by (simp add: finished_def)
qed

text \<open>
  The claim as stated fails: on the run of the test, four lines are logged during
  polling, not three, and two of them are of type success.
\<close>

theorem three_status_events_counterexample:
  "map snd (emitted polled finished) = [Info, Info, Success, Success]
   \<and> length (emitted polled finished) \<noteq> 3"
  by (simp add: run_defs)

section \<open>The bounded history\<close>

text \<open>
  C4. Whatever the history was, after \<^verbatim>\<open>addDownload\<close> the list in memory has at most ten
  records, the new record is its head, and it is the first ten of the old list with the
  new record in front; the stored text is the serialisation of that list. After eleven
  commits to an empty history the list holds the last ten in reverse order of commit: the
  eleventh is the head, and the first, when it differs from the others, is gone.
\<close>

theorem history_bounded_newest_first:
  "length (downloads (fst (addDownload d st))) \<le> 10
   \<and> hd (downloads (fst (addDownload d st))) = d
   \<and> downloads (fst (addDownload d st)) = take 10 (d # downloads st)
   \<and> localStorage (fst (addDownload d st))
       = Some (JSON_stringify (JArr (map to_json (take 10 (d # downloads st)))))
   \<and> (downloads st = [] \<and> length rs = 11 \<longrightarrow>
        downloads (commits rs st) = rev (tl rs)
        \<and> hd (downloads (commits rs st)) = rs ! 10
        \<and> (rs ! 0 \<notin> set (tl rs) \<longrightarrow> rs ! 0 \<notin> set (downloads (commits rs st))))"
proof -
  have tail: "hd (rev (tl rs)) = rs ! 10" if "length rs = 11"
  proof -
    from that have "tl rs \<noteq> []" by (cases rs) auto
    then have "hd (rev (tl rs)) = last (tl rs)" by (simp add: hd_rev)
    also have "\<dots> = last rs" using \<open>tl rs \<noteq> []\<close> by (cases rs) auto
    also have "\<dots> = rs ! 10" using that by (cases rs) (auto simp: last_conv_nth)
    finally show ?thesis .
  qed
  show ?thesis
    by (simp add: downloads_addDownload localStorage_addDownload eleven_commits tail)
qed

theorem history_bounded_newest_first_witness:
  "downloads startPage = [] \<and> length (map sample [0..<11]) = 11
   \<and> sample 0 \<notin> set (map sample [1..<11])
   \<and> downloads (commits (map sample [0..<11]) startPage) = map sample (rev [1..<11])
   \<and> hd (downloads (commits (map sample [0..<11]) startPage)) = sample 10
   \<and> sample 0 \<notin> set (downloads (commits (map sample [0..<11]) startPage))
   \<and> downloads (fst (addDownload (sample 11) startPage)) = [sample 11]"
proof -
  have l: "[0..<11] = [0, 1, 2, 3, 4, 5, 6, 7, 8, 9, 10::nat]" by (simp add: upt_rec)
  have l1: "[1..<11] = [1, 2, 3, 4, 5, 6, 7, 8, 9, 10::nat]" by (simp add: upt_rec)
  have h1: "downloads startPage = []"
    by (simp add: startPage_def newPage_def logStatus_def)
  have h2: "length (map sample [0..<11]) = 11" by simp
  have h3: "sample 0 \<notin> set (map sample [1..<11])"
    unfolding l1 by (simp add: sample_def)
  show ?thesis
    using h1 h2 h3
      history_bounded_newest_first
        [where d = "sample 11" and st = startPage and rs = "map sample [0..<11]"]
    unfolding l l1 by (simp add: rev_map)
qed

section \<open>A failed status request\<close>

text \<open>
  C5. When the status request of a polling task is rejected, the task ends at once: it is
  removed, no request is sent again, the history in memory and the stored text are
  untouched, one error line is logged and the button is enabled. When it was the only
  task, the page is idle again.
\<close>

theorem status_fetch_failure_ends_polling:
  assumes "task_at st i = Some (AwaitStatus downloadId u)"
  shows "step st (StatusReply i (Rejected m) now)
           = finish i (logStatus (CheckFailed (Message m)) Error st)
         \<and> tasks (step st (StatusReply i (Rejected m) now))
           = take i (tasks st) @ drop (Suc i) (tasks st)
         \<and> (tasks st = [AwaitStatus downloadId u] \<longrightarrow>
              tasks (step st (StatusReply i (Rejected m) now)) = [])
         \<and> requests (step st (StatusReply i (Rejected m) now)) = requests st
         \<and> downloads (step st (StatusReply i (Rejected m) now)) = downloads st
         \<and> localStorage (step st (StatusReply i (Rejected m) now)) = localStorage st
         \<and> statusLog (step st (StatusReply i (Rejected m) now))
           = statusLog st @ [(CheckFailed (Message m), Error)]
         \<and> \<not> btnDisabled (step st (StatusReply i (Rejected m) now))"
proof -
  have one: "i = 0" if "tasks st = [AwaitStatus downloadId u]"
    using assms that by (simp add: task_at_def split: if_splits)
  show ?thesis
    using assms one
    by (auto simp: onStatusReply_def finish_def logStatus_def)
qed

theorem status_fetch_failure_ends_polling_witness:
  "task_at polled 0 = Some (AwaitStatus (Some (js ''1'')) trackUrl)
   \<and> tasks polled = [AwaitStatus (Some (js ''1'')) trackUrl]
   \<and> tasks (step polled (StatusReply 0 (Rejected (js ''Failed to fetch'')) (js ''t''))) = []
   \<and> requests (step polled (StatusReply 0 (Rejected (js ''Failed to fetch'')) (js ''t'')))
       = requests polled
   \<and> downloads (step polled (StatusReply 0 (Rejected (js ''Failed to fetch'')) (js ''t''))) = []
   \<and> localStorage (step polled (StatusReply 0 (Rejected (js ''Failed to fetch'')) (js ''t''))) = None
   \<and> statusLog (step polled (StatusReply 0 (Rejected (js ''Failed to fetch'')) (js ''t'')))
       = [(Initialized, Info), (CheckFailed (Message (js ''Failed to fetch'')), Error)]
   \<and> \<not> btnDisabled (step polled (StatusReply 0 (Rejected (js ''Failed to fetch'')) (js ''t'')))"
proof -
  have h: "task_at polled 0 = Some (AwaitStatus (Some (js ''1'')) trackUrl)"
    by (simp add: run_defs)
  have t: "tasks polled = [AwaitStatus (Some (js ''1'')) trackUrl]"
    by (simp add: run_defs)
  have d: "downloads polled = []" "localStorage polled = None"
    "statusLog polled = [(Initialized, Info)]"
    by (simp_all add: run_defs)
  show ?thesis
    using h t d status_fetch_failure_ends_polling [OF h, of "js ''Failed to fetch''" "js ''t''"]
    by (simp del: step.simps add: finish_def logStatus_def)
qed

section \<open>File links\<close>

text \<open>
  C6, as the code has it. For a file name that is well formed, the link is the address
  of the backend, \<^verbatim>\<open>/download-file/\<close>, the platform, a slash and the encoded name; the
  encoded name consists of unescaped characters and the percent sign only, so it holds
  no slash, question mark, hash or ampersand. For a name with an unpaired surrogate,
  \<^verbatim>\<open>encodeURIComponent\<close> raises \<^verbatim>\<open>URIError\<close> and there is no link.
\<close>

theorem file_link_percent_encoded:
  "(wellFormed name \<longrightarrow>
      (\<exists>enc. encodeURIComponent name = Inr enc
         \<and> fileLink st d name =
             Inr \<lparr>href = apiUrl st @ js ''/download-file/'' @ platform d @ js ''/'' @ enc,
                  label = name\<rparr>
         \<and> (\<forall>c \<in> set enc. unescaped c \<or> c = 0x25)
         \<and> 0x2F \<notin> set enc \<and> 0x3F \<notin> set enc \<and> 0x23 \<notin> set enc \<and> 0x26 \<notin> set enc))
   \<and> (\<not> wellFormed name \<longrightarrow> fileLink st d name = Inl URIError)"
proof (intro conjI impI)
  assume "wellFormed name"
  then obtain enc where enc: "encodeURIComponent name = Inr enc"
    using encodeURIComponent_wellFormed by blast
  have safe: "\<forall>c \<in> set enc. unescaped c \<or> c = 0x25"
    using encodeURIComponent_safe [OF enc] by blast
  have "0x2F \<notin> set enc \<and> 0x3F \<notin> set enc \<and> 0x23 \<notin> set enc \<and> 0x26 \<notin> set enc"
    using safe reserved_not_unescaped by fastforce
  with enc safe fileLink_Inr [OF enc]
  show "\<exists>enc. encodeURIComponent name = Inr enc
         \<and> fileLink st d name =
             Inr \<lparr>href = apiUrl st @ js ''/download-file/'' @ platform d @ js ''/'' @ enc,
                  label = name\<rparr>
         \<and> (\<forall>c \<in> set enc. unescaped c \<or> c = 0x25)
         \<and> 0x2F \<notin> set enc \<and> 0x3F \<notin> set enc \<and> 0x23 \<notin> set enc \<and> 0x26 \<notin> set enc"
    by blast
next
  assume "\<not> wellFormed name"
  then have "\<nexists>enc. encodeURIComponent name = Inr enc"
    using encodeURIComponent_wellFormed by blast
  then obtain e where "encodeURIComponent name = Inl e"
    by (cases "encodeURIComponent name") auto
  then show "fileLink st d name = Inl URIError"
    using encodeURIComponent_error by (auto simp: fileLink_def)
qed

theorem file_link_percent_encoded_witness:
  "wellFormed (js ''a/b?c#d&e.mp3'')
   \<and> fileLink startPage (sample 0) (js ''a/b?c#d&e.mp3'')
       = Inr \<lparr>href = js ''http://localhost:5000/download-file/spotify/a%2Fb%3Fc%23d%26e.mp3'',
              label = js ''a/b?c#d&e.mp3''\<rparr>
   \<and> \<not> wellFormed [0x61, 0xDC00]
   \<and> fileLink startPage (sample 0) [0x61, 0xDC00] = Inl URIError"
proof -
  have h: "wellFormed (js ''a/b?c#d&e.mp3'')" "\<not> wellFormed [0x61, 0xDC00]"
    by code_simp+
  have e: "fileLink startPage (sample 0) (js ''a/b?c#d&e.mp3'')
       = Inr \<lparr>href = js ''http://localhost:5000/download-file/spotify/a%2Fb%3Fc%23d%26e.mp3'',
              label = js ''a/b?c#d&e.mp3''\<rparr>"
    by code_simp
  show ?thesis
    using h e file_link_percent_encoded [of "js ''a/b?c#d&e.mp3''" startPage "sample 0"]
      file_link_percent_encoded [of "[0x61, 0xDC00]" startPage "sample 0"]
    by simp
qed

text \<open>
  The claim as stated fails: for a record whose one file name is the lone surrogate
  \<^verbatim>\<open>U+D83D\<close>, \<^verbatim>\<open>renderDownloadLinks\<close> raises and returns no link.
\<close>

theorem lone_surrogate_counterexample:
  "renderDownloadLinks startPage ((sample 0)\<lparr>files := [[0xD83D]]\<rparr>) = Inl URIError"
  by code_simp

section \<open>The record of a completed job\<close>

text \<open>
  C9. In the record built from a completed status, a missing title becomes
  \<open>Downloaded Media\<close> and missing files become the empty sequence; the title is never
  empty; and this record is the one at the head of the history after the reply.
\<close>

theorem history_record_defaults:
  "(status_title s = None \<longrightarrow> title (downloadData st u s now) = js ''Downloaded Media'')
   \<and> (status_files s = None \<longrightarrow> files (downloadData st u s now) = [])
   \<and> title (downloadData st u s now) \<noteq> []
   \<and> (task_at st i = Some (AwaitStatus downloadId u) \<and> status_status s = Some (js ''completed'')
        \<longrightarrow> hd (downloads (step st (StatusReply i (Resolved s) now))) = downloadData st u s now)"
proof -
  have "js ''Downloaded Media'' \<noteq> []" by (simp add: js_def)
  then have t: "title (downloadData st u s now) \<noteq> []"
    by (simp add: downloadData_def orElse_nonempty)
  have c: "hd (downloads (onStatusReply i downloadId u (Resolved s) now st)) = downloadData st u s now"
    if "status_status s = Some (js ''completed'')"
    using that
    by (auto simp: onStatusReply_def finish_def logStatus_def split: prod.splits option.splits
          dest: addDownload_head)
  show ?thesis
    using t c by (simp add: downloadData_def orElse_def)
qed

theorem history_record_defaults_witness:
  "task_at polled 0 = Some (AwaitStatus (Some (js ''1'')) trackUrl)
   \<and> hd (downloads (step polled (StatusReply 0
          (Resolved \<lparr>status_status = Some (js ''completed''), status_title = None,
             status_output_path = None, status_files = None, status_error = None\<rparr>) (js ''t''))))
      = \<lparr>title = js ''Downloaded Media'', platform = js ''spotify'', url = trackUrl,
         outputPath = None, files = [], timestamp = js ''t''\<rparr>"
proof -
  have h: "task_at polled 0 = Some (AwaitStatus (Some (js ''1'')) trackUrl)"
    by (simp add: run_defs)
  have p: "currentPlatform polled = js ''spotify''"
    by (simp add: run_defs)
  show ?thesis
    using h p history_record_defaults [of "\<lparr>status_status = Some (js ''completed''), status_title = None,
             status_output_path = None, status_files = None, status_error = None\<rparr>"
         polled trackUrl "js ''t''" 0 "Some (js ''1'')"]
    by (simp add: downloadData_def del: step.simps)
qed

end
